theory Spec2Isabelle
  imports Main "HOL-Library.Multiset" "HOL-Library.Char_ord" "HOL-Library.List_Lexorder"
begin

section \<open>Data model\<close>

text \<open>
  Strings of the program are HOL strings: a character is a code unit below 256, and the
  order of strings is the lexicographic order of the character codes, as the default
  comparison of \<open>sort\<close> has it. The interface \<open>Manifest\<close> of \<open>src/dev/mod.ts\<close>
  has the two fields \<open>routes\<close> and \<open>islands\<close>, both arrays of strings.
\<close>

record Manifest =
  routes :: "string list"
  islands :: "string list"

section \<open>Change detection\<close>

text \<open>
  \<open>arraysEqual\<close> first compares the lengths and then runs an index loop that leaves with
  \<open>false\<close> at the first position where the two arrays differ. The loop is the function
  \<open>arraysEqual_loop\<close>, whose argument \<open>i\<close> is the loop counter.
\<close>

function arraysEqual_loop :: "'a list \<Rightarrow> 'a list \<Rightarrow> nat \<Rightarrow> bool" where
  "arraysEqual_loop a b i =
     (if i < length a
      then (if a ! i \<noteq> b ! i then False else arraysEqual_loop a b (Suc i))
      else True)"
  by pat_completeness auto
termination
  by (relation "measure (\<lambda>(a, b, i). length a - i)") auto

declare arraysEqual_loop.simps [simp del]

definition arraysEqual :: "'a list \<Rightarrow> 'a list \<Rightarrow> bool" where
  "arraysEqual a b = (if length a \<noteq> length b then False else arraysEqual_loop a b 0)"

text \<open>The expression bound to \<open>manifestChanged\<close> in \<open>dev\<close>.\<close>

definition manifestChanged :: "Manifest \<Rightarrow> Manifest \<Rightarrow> bool" where
  "manifestChanged newManifest currentManifest =
     (\<not> arraysEqual (routes newManifest) (routes currentManifest) \<or>
      \<not> arraysEqual (islands newManifest) (islands currentManifest))"

section \<open>String operations of the host language\<close>

text \<open>
  \<open>s.startsWith(p)\<close>, \<open>s.endsWith(p)\<close>, \<open>s.includes(t)\<close>, \<open>s.split(c)\<close> for a
  one-character separator (the result is never empty: the empty string splits into one
  empty piece) and \<open>pieces.join(sep)\<close>.
\<close>

definition startsWith :: "string \<Rightarrow> string \<Rightarrow> bool" where
  "startsWith s p = (take (length p) s = p)"

definition endsWith :: "string \<Rightarrow> string \<Rightarrow> bool" where
  "endsWith s p = (length p \<le> length s \<and> drop (length s - length p) s = p)"

fun js_includes :: "string \<Rightarrow> string \<Rightarrow> bool" where
  "js_includes [] t = (t = [])"
| "js_includes (x # xs) t = (startsWith (x # xs) t \<or> js_includes xs t)"

fun js_split :: "char \<Rightarrow> string \<Rightarrow> string list" where
  "js_split c [] = [[]]"
| "js_split c (x # xs) =
     (if x = c then [] # js_split c xs
      else (case js_split c xs of [] \<Rightarrow> [[x]] | p # ps \<Rightarrow> (x # p) # ps))"

fun js_join :: "string \<Rightarrow> string list \<Rightarrow> string" where
  "js_join sep [] = []"
| "js_join sep [x] = x"
| "js_join sep (x # y # ys) = x @ sep @ js_join sep (y # ys)"

section \<open>Directory collector\<close>

text \<open>
  Errors are values. \<open>NotFound\<close> is \<open>Deno.errors.NotFound\<close>, \<open>Error\<close> is the plain
  \<open>Error\<close> that \<open>collectDir\<close> throws itself, and \<open>OtherError\<close> stands for every other
  class of thrown value (its class name and its message).
\<close>

datatype js_error = NotFound string | Error string | OtherError string string

text \<open>
  A directory tree: a file, or a directory with its entries in the order in which the
  directory is listed. The file system answers \<open>Deno.stat\<close> for a path with an error or
  with the node found there.
\<close>

datatype fsnode = File | Dir "(string \<times> fsnode) list"

type_synonym filesystem = "string \<Rightarrow> js_error + fsnode"

fun isDirectory :: "fsnode \<Rightarrow> bool" where
  "isDirectory File = False"
| "isDirectory (Dir es) = True"

record WalkOptions =
  includeDirs :: bool
  includeFiles :: bool
  exts :: "string list"

text \<open>
  Modelled from the spec: \<open>walk\<close> is imported through \<open>deps.ts\<close> from the standard
  library and is not part of \<open>src/\<close>. The spec says that the walk is recursive, includes
  only files whose extension is in the allow-list and yields files only. The model visits the
  entries of a directory in listing order and descends into sub-directories; an entry is
  named by its path relative to the walked root (components joined by \<open>/\<close>), which is the
  value \<open>relative(dir, entry.path)\<close> that \<open>collectDir\<close> uses. Reading the tree does not
  fail in this model.
\<close>

definition include_path :: "string list \<Rightarrow> string \<Rightarrow> bool" where
  "include_path es p = list_ex (\<lambda>e. endsWith p (CHR ''.'' # e)) es"

definition child_path :: "string \<Rightarrow> string \<Rightarrow> string" where
  "child_path p n = (if p = [] then n else p @ ''/'' @ n)"

fun walk :: "WalkOptions \<Rightarrow> string \<Rightarrow> fsnode \<Rightarrow> string list" where
  "walk opts p File =
     (if includeFiles opts \<and> include_path (exts opts) p then [p] else [])"
| "walk opts p (Dir es) =
     (if includeDirs opts \<and> include_path (exts opts) p then [p] else []) @
     concat (map (\<lambda>(n, c). walk opts (child_path p n) c) es)"

text \<open>All files of a tree, by relative path and in walk order (used in statements only).\<close>

fun files_of :: "string \<Rightarrow> fsnode \<Rightarrow> string list" where
  "files_of p File = [p]"
| "files_of p (Dir es) = concat (map (\<lambda>(n, c). files_of (child_path p n) c) es)"

text \<open>
  The options that \<open>collectDir\<close> passes to \<open>walk\<close>, and the key it computes for an entry:
  \<open>relative(dir, entry.path).split(".").slice(0, -1).join(".")\<close>.
\<close>

definition collectDir_options :: WalkOptions where
  "collectDir_options =
     \<lparr>includeDirs = False, includeFiles = True, exts = [''tsx'', ''jsx'', ''ts'', ''js'']\<rparr>"

definition fileNameWithoutExt :: "string \<Rightarrow> string" where
  "fileNameWithoutExt rel = js_join ''.'' (butlast (js_split CHR ''.'' rel))"

text \<open>
  The \<open>for await\<close> loop of \<open>collectDir\<close> over the entries that remain, with the array
  \<open>paths\<close> and the set \<open>fileNames\<close> as loop state. The message of the error is the
  template literal of the source: the text, then \<open>dir\<close>, then the key.
\<close>

fun collect_loop ::
  "string \<Rightarrow> string list \<Rightarrow> string list \<Rightarrow> string set \<Rightarrow> js_error + string list" where
  "collect_loop dir [] paths fileNames = Inr paths"
| "collect_loop dir (entry # rest) paths fileNames =
     (if fileNameWithoutExt entry \<in> fileNames
      then Inl (Error (''Route conflict detected. Multiple files have the same name: '' @
                        dir @ fileNameWithoutExt entry))
      else collect_loop dir rest (paths @ [entry])
             (insert (fileNameWithoutExt entry) fileNames))"

definition collectDir :: "filesystem \<Rightarrow> string \<Rightarrow> js_error + string list" where
  "collectDir fs dir =
     (case fs dir of
        Inl err \<Rightarrow> (case err of NotFound m \<Rightarrow> Inr [] | _ \<Rightarrow> Inl err)
      | Inr stat \<Rightarrow>
          if \<not> isDirectory stat then Inr []
          else (case collect_loop dir (walk collectDir_options [] stat) [] {} of
                  Inl err \<Rightarrow> Inl err
                | Inr paths \<Rightarrow> Inr (sort paths)))"

section \<open>Manifest generator\<close>

text \<open>
  Characters that a HOL string literal cannot hold are written by their code.
\<close>

abbreviation DQ :: char where "DQ \<equiv> CHR 0x22"
abbreviation BSL :: char where "BSL \<equiv> CHR 0x5C"
abbreviation BQ :: char where "BQ \<equiv> CHR 0x60"

text \<open>
  \<open>JSON.stringify\<close> of a string: the text between double quotes, where the double quote
  and the backslash are escaped with a backslash, the control characters below \<open>0x20\<close>
  are written \<open>\b\<close>, \<open>\t\<close>, \<open>\n\<close>, \<open>\f\<close>, \<open>\r\<close> or \<open>\u00xx\<close>, and every other character
  stands for itself.
\<close>

definition hex_digit :: "nat \<Rightarrow> char" where
  "hex_digit n = ''0123456789abcdef'' ! (n mod 16)"

definition json_escape :: "char \<Rightarrow> string" where
  "json_escape c =
     (if c = DQ then [BSL, DQ]
      else if c = BSL then [BSL, BSL]
      else if c = CHR 0x08 then [BSL, CHR ''b'']
      else if c = CHR 0x09 then [BSL, CHR ''t'']
      else if c = CHR 0x0A then [BSL, CHR ''n'']
      else if c = CHR 0x0C then [BSL, CHR ''f'']
      else if c = CHR 0x0D then [BSL, CHR ''r'']
      else if (of_char c :: nat) < 32
        then [BSL, CHR ''u'', CHR ''0'', CHR ''0'',
              hex_digit (of_char c div 16), hex_digit (of_char c mod 16)]
      else [c])"

definition JSON_stringify_string :: "string \<Rightarrow> string" where
  "JSON_stringify_string s = [DQ] @ concat (map json_escape s) @ [DQ]"

text \<open>The decimal text of an array index, as a template literal prints it.\<close>

definition digit_char :: "nat \<Rightarrow> char" where
  "digit_char n = ''0123456789'' ! (n mod 10)"

function nat_to_string :: "nat \<Rightarrow> string" where
  "nat_to_string n =
     (if n < 10 then [digit_char n] else nat_to_string (n div 10) @ [digit_char (n mod 10)])"
  by pat_completeness auto
termination
  by (relation "measure id") auto

declare nat_to_string.simps [simp del]

text \<open>
  The path functions come from the standard library through \<open>deps.ts\<close>, which is not
  under \<open>src/\<close>: they are parameters of the model. \<open>join\<close> takes its arguments as a list.
\<close>

record PathLib =
  posix_normalize :: "string \<Rightarrow> string"
  join :: "string list \<Rightarrow> string"
  relative :: "string \<Rightarrow> string \<Rightarrow> string"
  dirname :: "string \<Rightarrow> string"

text \<open>\<open>s.replace(/\\/g, "/")\<close>: every backslash becomes a slash.\<close>

definition replace_backslashes :: "string \<Rightarrow> string" where
  "replace_backslashes s = map (\<lambda>c. if c = BSL then CHR ''/'' else c) s"

definition toImportSpecifier :: "PathLib \<Rightarrow> string \<Rightarrow> string" where
  "toImportSpecifier P file =
     (let specifier = replace_backslashes (posix_normalize P file)
      in if \<not> startsWith specifier ''..'' then ''./'' @ specifier else specifier)"

text \<open>
  \<open>xs.map((file, i) => f(file, i))\<close>: the callback also receives the index.
\<close>

definition map_index :: "('a \<Rightarrow> nat \<Rightarrow> 'b) \<Rightarrow> 'a list \<Rightarrow> 'b list" where
  "map_index f xs = map (\<lambda>(x, i). f x i) (zip xs [0..<length xs])"

text \<open>
  The four callbacks of the template in \<open>generate\<close>: an import statement for a route and for
  an island, and an entry of the \<open>routes\<close> and of the \<open>islands\<close> object.
\<close>

definition route_import :: "PathLib \<Rightarrow> string \<Rightarrow> string \<Rightarrow> nat \<Rightarrow> string" where
  "route_import P rel file i =
     ''import * as $'' @ nat_to_string i @ '' from '' @ [DQ] @
     toImportSpecifier P (join P [rel, ''routes'', file]) @ [DQ] @ '';''"

definition island_import :: "PathLib \<Rightarrow> string \<Rightarrow> string \<Rightarrow> nat \<Rightarrow> string" where
  "island_import P rel file i =
     ''import * as $$'' @ nat_to_string i @ '' from '' @ [DQ] @
     toImportSpecifier P (join P [rel, ''islands'', file]) @ [DQ] @ '';''"

definition route_entry :: "PathLib \<Rightarrow> string \<Rightarrow> nat \<Rightarrow> string" where
  "route_entry P file i =
     JSON_stringify_string (toImportSpecifier P (join P [''routes'', file])) @
     '': $'' @ nat_to_string i @ '',''"

definition island_entry :: "PathLib \<Rightarrow> string \<Rightarrow> nat \<Rightarrow> string" where
  "island_entry P file i =
     JSON_stringify_string (toImportSpecifier P (join P [''islands'', file])) @
     '': $$'' @ nat_to_string i @ '',''"

text \<open>The text bound to \<open>output\<close> in \<open>generate\<close>, before it is sent to the formatter.\<close>

definition generate_output :: "PathLib \<Rightarrow> string \<Rightarrow> string \<Rightarrow> Manifest \<Rightarrow> string" where
  "generate_output P directory cwd manifest =
     (let rel = relative P directory cwd in
      ''// DO NOT EDIT. This file is generated by Fresh.\<newline>'' @
      ''// This file SHOULD be checked into source version control.\<newline>'' @
      ''// This file is automatically updated during development when running '' @
        [BQ] @ ''dev.ts'' @ [BQ] @ ''.\<newline>'' @
      ''\<newline>'' @
      js_join ''\<newline>'' (map_index (route_import P rel) (routes manifest)) @ ''\<newline>'' @
      js_join ''\<newline>'' (map_index (island_import P rel) (islands manifest)) @ ''\<newline>'' @
      ''\<newline>'' @
      ''const manifest = {\<newline>'' @
      ''  routes: {\<newline>'' @
      ''    '' @ js_join ''\<newline>    '' (map_index (route_entry P) (routes manifest)) @ ''\<newline>'' @
      ''  },\<newline>'' @
      ''  islands: {\<newline>'' @
      ''    '' @ js_join ''\<newline>    '' (map_index (island_entry P) (islands manifest)) @ ''\<newline>'' @
      ''  },\<newline>'' @
      ''  baseUrl: import.meta.url,\<newline>'' @
      ''};\<newline>'' @
      ''\<newline>'' @
      ''export default manifest;\<newline>'')"

subsection \<open>The POSIX path library\<close>

text \<open>
  A path library to run the model with: the POSIX behaviour of the standard library's
  functions. \<open>normalize_segments\<close> goes through the segments of a path between slashes,
  drops empty segments and \<open>.\<close>, and lets \<open>..\<close> remove the segment before it (or keeps it,
  when there is none to remove and the path is relative). Relative arguments of \<open>relative\<close>
  are resolved against the working directory \<open>wd\<close> of the process.
\<close>

fun normalize_segments :: "bool \<Rightarrow> string list \<Rightarrow> string list \<Rightarrow> string list" where
  "normalize_segments allowAboveRoot [] res = res"
| "normalize_segments allowAboveRoot (seg # rest) res =
     (if seg = [] \<or> seg = ''.'' then normalize_segments allowAboveRoot rest res
      else if seg = ''..'' then
        (if res \<noteq> [] \<and> last res \<noteq> ''..''
         then normalize_segments allowAboveRoot rest (butlast res)
         else if allowAboveRoot then normalize_segments allowAboveRoot rest (res @ [''..''])
         else normalize_segments allowAboveRoot rest res)
      else normalize_segments allowAboveRoot rest (res @ [seg]))"

definition normalizeString :: "string \<Rightarrow> bool \<Rightarrow> string" where
  "normalizeString path allowAboveRoot =
     js_join ''/'' (normalize_segments allowAboveRoot (js_split CHR ''/'' path) [])"

definition posix_normalize_impl :: "string \<Rightarrow> string" where
  "posix_normalize_impl path =
     (if path = [] then ''.''
      else
        let isAbsolute = (hd path = CHR ''/'');
            trailingSeparator = (last path = CHR ''/'');
            p = normalizeString path (\<not> isAbsolute);
            p1 = (if p = [] \<and> \<not> isAbsolute then ''.'' else p);
            p2 = (if p1 \<noteq> [] \<and> trailingSeparator then p1 @ ''/'' else p1)
        in if isAbsolute then ''/'' @ p2 else p2)"

definition posix_join_impl :: "string list \<Rightarrow> string" where
  "posix_join_impl paths =
     (let joined = js_join ''/'' (filter (\<lambda>p. p \<noteq> []) paths)
      in if joined = [] then ''.'' else posix_normalize_impl joined)"

definition posix_resolve_segments :: "string \<Rightarrow> string \<Rightarrow> string list" where
  "posix_resolve_segments wd path =
     normalize_segments False
       (js_split CHR ''/'' (if startsWith path ''/'' then path else wd @ ''/'' @ path)) []"

fun common_prefix_length :: "'a list \<Rightarrow> 'a list \<Rightarrow> nat" where
  "common_prefix_length (x # xs) (y # ys) =
     (if x = y then Suc (common_prefix_length xs ys) else 0)"
| "common_prefix_length xs ys = 0"

definition posix_relative_impl :: "string \<Rightarrow> string \<Rightarrow> string \<Rightarrow> string" where
  "posix_relative_impl wd from to =
     (let f = posix_resolve_segments wd from;
          t = posix_resolve_segments wd to;
          n = common_prefix_length f t
      in js_join ''/'' (replicate (length f - n) ''..'' @ drop n t))"

text \<open>
  \<open>dirname\<close> scans the path from its end down to index 1: trailing slashes are passed
  over, and the scan stops at the first slash after a character that is not a slash.
\<close>

fun dirname_scan :: "string \<Rightarrow> nat \<Rightarrow> bool \<Rightarrow> nat option" where
  "dirname_scan path 0 matchedSlash = None"
| "dirname_scan path (Suc i) matchedSlash =
     (if path ! Suc i = CHR ''/''
      then (if \<not> matchedSlash then Some (Suc i) else dirname_scan path i matchedSlash)
      else dirname_scan path i False)"

definition posix_dirname_impl :: "string \<Rightarrow> string" where
  "posix_dirname_impl path =
     (if path = [] then ''.''
      else
        let hasRoot = (hd path = CHR ''/'') in
        (case dirname_scan path (length path - 1) True of
           None \<Rightarrow> if hasRoot then ''/'' else ''.''
         | Some end \<Rightarrow> if hasRoot \<and> end = 1 then ''//'' else take end path))"

definition posix_path :: "string \<Rightarrow> PathLib" where
  "posix_path wd =
     \<lparr>posix_normalize = posix_normalize_impl, join = posix_join_impl,
      relative = posix_relative_impl wd, dirname = posix_dirname_impl\<rparr>"

section \<open>Dev orchestrator\<close>

text \<open>
  The part of the world that \<open>dev\<close> reads and writes up to the regeneration of the manifest:
  the environment variables of the process, the directory trees that \<open>Deno.stat\<close> and
  \<open>walk\<close> see, the text files present (by path), the console, and a log of the calls of
  \<open>Deno.env.set\<close> and \<open>generate\<close> in the order in which they happen.
\<close>

datatype event = EnvSet string string | GenerateCall string string Manifest

record World =
  environment :: "string \<rightharpoonup> string"
  disk :: filesystem
  textfiles :: "string \<rightharpoonup> string"
  console :: "string list"
  calls :: "event list"

text \<open>
  What \<open>dev\<close> and \<open>generate\<close> use from outside \<open>src/\<close>, as parameters: the path library,
  \<open>toFileUrl(p).href\<close>, \<open>exists\<close> (its answer for the files present and its argument),
  \<open>JSON.parse\<close> (the source types its result as a \<open>Manifest\<close>; a stored value of
  another shape is outside the model), the formatter process \<open>deno fmt -\<close> (its standard
  output for a given input, or the error of starting or feeding it), and the errors, if any,
  of \<open>Deno.mkdir\<close> and \<open>Deno.writeTextFile\<close> for a path. The two directory scans run
  concurrently under \<open>Promise.all\<close>: when both reject, \<open>islands_rejects_first\<close> says
  which rejection comes first and is the one that \<open>dev\<close> throws.
\<close>

record Deps =
  path_lib :: PathLib
  toFileUrl_href :: "string \<Rightarrow> string"
  exists :: "(string \<rightharpoonup> string) \<Rightarrow> string \<Rightarrow> bool"
  JSON_parse :: "string \<Rightarrow> js_error + Manifest"
  deno_fmt :: "string \<Rightarrow> js_error + string"
  mkdir_error :: "string \<Rightarrow> js_error option"
  write_error :: "string \<Rightarrow> js_error option"
  islands_rejects_first :: bool

text \<open>\<open>JSON.stringify\<close> of an array of strings and of a manifest \<open>{routes, islands}\<close>.\<close>

definition JSON_stringify_array :: "string list \<Rightarrow> string" where
  "JSON_stringify_array xs = ''['' @ js_join '','' (map JSON_stringify_string xs) @ '']''"

definition JSON_stringify_manifest :: "Manifest \<Rightarrow> string" where
  "JSON_stringify_manifest m =
     ''{'' @ [DQ] @ ''routes'' @ [DQ] @ '':'' @ JSON_stringify_array (routes m) @ '','' @
     [DQ] @ ''islands'' @ [DQ] @ '':'' @ JSON_stringify_array (islands m) @ ''}''"

text \<open>
  \<open>generate\<close>: the call is logged, the text is formatted, the directory of the manifest is
  created, the file is written and a message is printed. The result is the path of the
  manifest, or the error of the step that failed, together with the world it leaves.
\<close>

definition generated_message :: "Manifest \<Rightarrow> string" where
  "generated_message manifest =
     ''%cThe manifest has been generated for '' @ nat_to_string (length (routes manifest)) @
     '' routes and '' @ nat_to_string (length (islands manifest)) @ '' islands.''"

definition generate ::
  "Deps \<Rightarrow> string \<Rightarrow> string \<Rightarrow> Manifest \<Rightarrow> World \<Rightarrow> (js_error + string) \<times> World" where
  "generate D directory cwd manifest w =
     (let w0 = w\<lparr>calls := calls w @ [GenerateCall directory cwd manifest]\<rparr>;
          output = generate_output (path_lib D) directory cwd manifest
      in case deno_fmt D output of
           Inl err \<Rightarrow> (Inl err, w0)
         | Inr manifestStr \<Rightarrow>
             let manifestPath = join (path_lib D) [directory, ''fresh.gen.ts''] in
             (case mkdir_error D (dirname (path_lib D) manifestPath) of
                Some err \<Rightarrow> (Inl err, w0)
              | None \<Rightarrow>
                  (case write_error D manifestPath of
                     Some err \<Rightarrow> (Inl err, w0)
                   | None \<Rightarrow>
                       (Inr manifestPath,
                        w0\<lparr>textfiles := (textfiles w0)(manifestPath \<mapsto> manifestStr),
                           console := console w0 @ [generated_message manifest]\<rparr>))))"

text \<open>
  The previous manifest that \<open>dev\<close> binds to \<open>currentManifest\<close>: the parsed value of the
  environment variable when it is set to a non-empty string, the empty manifest otherwise.
\<close>

definition FRSH_DEV_PREVIOUS_MANIFEST :: string where
  "FRSH_DEV_PREVIOUS_MANIFEST = ''FRSH_DEV_PREVIOUS_MANIFEST''"

definition load_currentManifest :: "Deps \<Rightarrow> World \<Rightarrow> js_error + Manifest" where
  "load_currentManifest D w =
     (case environment w FRSH_DEV_PREVIOUS_MANIFEST of
        None \<Rightarrow> Inr \<lparr>routes = [], islands = []\<rparr>
      | Some prevManifest \<Rightarrow>
          if prevManifest \<noteq> [] then JSON_parse D prevManifest
          else Inr \<lparr>routes = [], islands = []\<rparr>)"

text \<open>
  \<open>dev\<close> from the two directory scans to the regeneration of the manifest, for the values
  \<open>outDir\<close> and \<open>dir\<close> that it has computed from its arguments. The two scans only read.
  What \<open>dev\<close> does after this point (the bundler, the imports) is not part of the model.
\<close>

definition dev_manifest ::
  "Deps \<Rightarrow> string \<Rightarrow> string \<Rightarrow> World \<Rightarrow> (js_error + unit) \<times> World" where
  "dev_manifest D outDir dir w =
     (case (collectDir (disk w) (join (path_lib D) [dir, ''./routes'']),
            collectDir (disk w) (join (path_lib D) [dir, ''./islands''])) of
        (Inl err1, Inl err2) \<Rightarrow> (Inl (if islands_rejects_first D then err2 else err1), w)
      | (Inl err1, Inr islandPaths) \<Rightarrow> (Inl err1, w)
      | (Inr routePaths, Inl err2) \<Rightarrow> (Inl err2, w)
      | (Inr routePaths, Inr islandPaths) \<Rightarrow>
     (case load_currentManifest D w of
        Inl err \<Rightarrow> (Inl err, w)
      | Inr currentManifest \<Rightarrow>
          let newManifest = \<lparr>routes = routePaths, islands = islandPaths\<rparr>;
              w1 = w\<lparr>environment := (environment w)
                         (FRSH_DEV_PREVIOUS_MANIFEST \<mapsto> JSON_stringify_manifest newManifest),
                      calls := calls w @
                         [EnvSet FRSH_DEV_PREVIOUS_MANIFEST (JSON_stringify_manifest newManifest)]\<rparr>;
              changed = manifestChanged newManifest currentManifest;
              manifestUrl = toFileUrl_href D (join (path_lib D) [outDir, ''fresh.gen.ts'']);
              hasOutDir = exists D (textfiles w1) manifestUrl
          in if \<not> hasOutDir \<or> changed
             then (case generate D outDir dir newManifest w1 of
                     (Inl err, w2) \<Rightarrow> (Inl err, w2)
                   | (Inr manifestPath, w2) \<Rightarrow> (Inr (), w2))
             else (Inr (), w1)))"

text \<open>The world after \<open>dev\<close> has stored the new manifest in the environment.\<close>

definition env_recorded :: "Manifest \<Rightarrow> World \<Rightarrow> World" where
  "env_recorded newManifest w =
     w\<lparr>environment := (environment w)
           (FRSH_DEV_PREVIOUS_MANIFEST \<mapsto> JSON_stringify_manifest newManifest),
        calls := calls w @
           [EnvSet FRSH_DEV_PREVIOUS_MANIFEST (JSON_stringify_manifest newManifest)]\<rparr>"

subsection \<open>A sample configuration\<close>

text \<open>
  A configuration to run the model on: POSIX paths; the file URL of an absolute path,
  \<open>file://\<close> followed by the path; an \<open>exists\<close> that answers whether a file is present
  under the name it is given, a string being taken as a path; a formatter that returns its
  input or cannot be started; a \<open>JSON.parse\<close> that reads back the serialized sample
  manifest; and a project \<open>/proj\<close> with one route \<open>a.ts\<close>, no islands directory and the
  output directory \<open>/proj/.fresh\<close>, where the manifest file is present or not.
\<close>

definition example_manifest :: Manifest where
  "example_manifest = \<lparr>routes = [''a.ts''], islands = []\<rparr>"

definition example_deps :: "bool \<Rightarrow> Deps" where
  "example_deps fmt_ok =
     \<lparr>path_lib = posix_path ''/'',
      toFileUrl_href = (\<lambda>p. ''file://'' @ p),
      exists = (\<lambda>files path. files path \<noteq> None),
      JSON_parse = (\<lambda>s. if s = JSON_stringify_manifest example_manifest
                         then Inr example_manifest
                         else Inl (OtherError ''SyntaxError'' s)),
      deno_fmt = (\<lambda>s. if fmt_ok then Inr s else Inl (OtherError ''NotFound'' ''deno'')),
      mkdir_error = (\<lambda>p. None),
      write_error = (\<lambda>p. None),
      islands_rejects_first = False\<rparr>"

definition example_world :: "string option \<Rightarrow> bool \<Rightarrow> World" where
  "example_world prev present =
     \<lparr>environment = (\<lambda>k. if k = FRSH_DEV_PREVIOUS_MANIFEST then prev else None),
      disk = (\<lambda>p. if p = ''/proj/routes'' then Inr (Dir [(''a.ts'', File)])
                   else Inl (NotFound p)),
      textfiles = (\<lambda>p. if present \<and> p = ''/proj/.fresh/fresh.gen.ts'' then Some ''old'' else None),
      console = [],
      calls = []\<rparr>"

section \<open>Entrypoint collector\<close>

text \<open>
  Of an island the function reads \<open>id\<close> and \<open>url\<close>, of a plugin \<open>name\<close> and the optional
  \<open>entrypoints\<close>, whose entries are listed in the order of \<open>Object.entries\<close>. The record
  \<open>entryPoints\<close> is a map from keys to URLs. \<open>import.meta.resolve\<close> is a parameter: it
  gives the URL for a specifier or throws.
\<close>

record Island =
  island_id :: string
  island_url :: string

record Plugin =
  plugin_name :: string
  entrypoints :: "(string \<times> string) list option"

definition entrypointBase :: string where
  "entrypointBase = ''../runtime/entrypoints''"

fun islands_loop :: "Island list \<Rightarrow> (string \<rightharpoonup> string) \<Rightarrow> (string \<rightharpoonup> string)" where
  "islands_loop [] entryPoints = entryPoints"
| "islands_loop (island # rest) entryPoints =
     islands_loop rest (entryPoints(''island-'' @ island_id island \<mapsto> island_url island))"

fun plugin_entries_loop ::
  "string \<Rightarrow> (string \<times> string) list \<Rightarrow> (string \<rightharpoonup> string) \<Rightarrow> (string \<rightharpoonup> string)" where
  "plugin_entries_loop pname [] entryPoints = entryPoints"
| "plugin_entries_loop pname ((name, url) # rest) entryPoints =
     plugin_entries_loop pname rest (entryPoints(''plugin-'' @ pname @ ''-'' @ name \<mapsto> url))"

text \<open>\<open>Object.entries(plugin.entrypoints ?? {})\<close>.\<close>

definition plugin_entries :: "Plugin \<Rightarrow> (string \<times> string) list" where
  "plugin_entries plugin = (case entrypoints plugin of None \<Rightarrow> [] | Some es \<Rightarrow> es)"

fun plugins_loop :: "Plugin list \<Rightarrow> (string \<rightharpoonup> string) \<Rightarrow> (string \<rightharpoonup> string)" where
  "plugins_loop [] entryPoints = entryPoints"
| "plugins_loop (plugin # rest) entryPoints =
     plugins_loop rest
       (plugin_entries_loop (plugin_name plugin) (plugin_entries plugin) entryPoints)"

text \<open>
  The \<open>try\<close> block: the key \<open>signals\<close> is stored when both calls of
  \<open>import.meta.resolve\<close> succeed; when one of them throws, nothing is stored.
\<close>

definition try_signals ::
  "(string \<Rightarrow> js_error + string) \<Rightarrow> (string \<rightharpoonup> string) \<Rightarrow> (string \<rightharpoonup> string)" where
  "try_signals resolve entryPoints =
     (case resolve ''@preact/signals'' of
        Inl err \<Rightarrow> entryPoints
      | Inr found \<Rightarrow>
          (case resolve (entrypointBase @ ''/signals.ts'') of
             Inl err \<Rightarrow> entryPoints
           | Inr signals \<Rightarrow> entryPoints(''signals'' \<mapsto> signals)))"

definition collectEntrypoints ::
  "(string \<Rightarrow> js_error + string) \<Rightarrow> bool \<Rightarrow> Island list \<Rightarrow> Plugin list \<Rightarrow>
   js_error + (string \<rightharpoonup> string)" where
  "collectEntrypoints resolve dev island_list plugins =
     (case resolve (entrypointBase @ (if dev then ''/main_dev.ts'' else ''/main.ts'')) of
        Inl err \<Rightarrow> Inl err
      | Inr main \<Rightarrow>
     (case resolve (entrypointBase @ ''/deserializer.ts'') of
        Inl err \<Rightarrow> Inl err
      | Inr deserializer \<Rightarrow>
          Inr (plugins_loop plugins
                 (islands_loop island_list
                    (try_signals resolve
                       [''main'' \<mapsto> main, ''deserializer'' \<mapsto> deserializer])))))"

text \<open>
  The key and URL pairs that the two loops store, in the order in which they store them
  (used in statements).
\<close>

definition island_pairs :: "Island list \<Rightarrow> (string \<times> string) list" where
  "island_pairs island_list =
     map (\<lambda>i. (''island-'' @ island_id i, island_url i)) island_list"

definition plugin_entry_pairs ::
  "string \<Rightarrow> (string \<times> string) list \<Rightarrow> (string \<times> string) list" where
  "plugin_entry_pairs pname es =
     map (\<lambda>(name, url). (''plugin-'' @ pname @ ''-'' @ name, url)) es"

definition plugin_pairs :: "Plugin list \<Rightarrow> (string \<times> string) list" where
  "plugin_pairs plugins =
     concat (map (\<lambda>p. plugin_entry_pairs (plugin_name p) (plugin_entries p)) plugins)"

definition last_url :: "(string \<times> string) list \<Rightarrow> string \<Rightarrow> string" where
  "last_url pairs key = snd (last (filter (\<lambda>kv. fst kv = key) pairs))"

text \<open>
  A sample \<open>import.meta.resolve\<close>: a specifier that begins with \<open>../\<close> resolves against
  the directory of the module, every other specifier throws.
\<close>

definition example_resolve :: "string \<Rightarrow> js_error + string" where
  "example_resolve specifier =
     (if startsWith specifier ''../'' then Inr (''file:///fresh/src'' @ drop 2 specifier)
      else Inl (OtherError ''TypeError'' specifier))"

section \<open>Properties of the change detector\<close>

lemma arraysEqual_loop_iff:
  "length a = length b \<Longrightarrow> arraysEqual_loop a b i = (\<forall>j. i \<le> j \<and> j < length a \<longrightarrow> a ! j = b ! j)"
proof (induction a b i rule: arraysEqual_loop.induct)
  case (1 a b i)
  show ?case
  proof (cases "i < length a")
    case False
    then show ?thesis by (subst arraysEqual_loop.simps) auto
  next
    case True
    note lt = this
    show ?thesis
    proof (cases "a ! i = b ! i")
      case False
      with lt show ?thesis
        by (subst arraysEqual_loop.simps) auto
    next
      case True
      have step: "arraysEqual_loop a b i = arraysEqual_loop a b (Suc i)"
        using lt True by (subst arraysEqual_loop.simps) simp
      have "(\<forall>j. Suc i \<le> j \<and> j < length a \<longrightarrow> a ! j = b ! j) =
            (\<forall>j. i \<le> j \<and> j < length a \<longrightarrow> a ! j = b ! j)"
        using True by (metis Suc_leI le_neq_implies_less Suc_leD)
      with step "1.IH"[OF lt _ "1.prems"] True show ?thesis by simp
    qed
  qed
qed

lemma arraysEqual_iff: "arraysEqual a b = (a = b)"
  by (auto simp: arraysEqual_def arraysEqual_loop_iff list_eq_iff_nth_eq)


text \<open>
  C2. The change detector of \<open>dev\<close> reports "unchanged" exactly when the two routes
  arrays are equal (same length, same element at every index) and the two islands arrays
  are equal; every difference, a reordering of the same elements included, is a change.
\<close>

theorem manifestChanged_iff:
  "(\<not> manifestChanged newManifest currentManifest) =
   (routes newManifest = routes currentManifest \<and> islands newManifest = islands currentManifest)"
  by (simp add: manifestChanged_def arraysEqual_iff)

theorem manifestChanged_iff_witness:
  "\<not> manifestChanged \<lparr>routes = [''a''], islands = []\<rparr> \<lparr>routes = [''a''], islands = []\<rparr> \<and>
   manifestChanged \<lparr>routes = [''a'', ''b''], islands = []\<rparr> \<lparr>routes = [''a''], islands = []\<rparr> \<and>
   manifestChanged \<lparr>routes = [''b'', ''a''], islands = []\<rparr> \<lparr>routes = [''a'', ''b''], islands = []\<rparr>"
  using manifestChanged_iff [of "\<lparr>routes = [''a''], islands = []\<rparr>" "\<lparr>routes = [''a''], islands = []\<rparr>"]
    manifestChanged_iff [of "\<lparr>routes = [''a'', ''b''], islands = []\<rparr>" "\<lparr>routes = [''a''], islands = []\<rparr>"]
    manifestChanged_iff [of "\<lparr>routes = [''b'', ''a''], islands = []\<rparr>" "\<lparr>routes = [''a'', ''b''], islands = []\<rparr>"]
  by simp

section \<open>Properties of the directory collector\<close>

lemma js_split_not_Nil: "js_split c s \<noteq> []"
  by (induction s) (auto split: list.splits)

lemma js_join_split: "js_join [c] (js_split c s) = s"
proof (induction s)
  case Nil
  then show ?case by simp
next
  case (Cons x s)
  obtain p ps where ps: "js_split c s = p # ps"
    using js_split_not_Nil[of c s] by (cases "js_split c s") auto
  show ?case
  proof (cases "x = c")
    case True
    with Cons ps show ?thesis by simp
  next
    case False
    with Cons ps show ?thesis by (cases ps) auto
  qed
qed

lemma js_split_no_sep: "c \<notin> set e \<Longrightarrow> js_split c e = [e]"
  by (induction e) auto

lemma js_split_snoc:
  "c \<notin> set e \<Longrightarrow> js_split c (s @ c # e) = js_split c s @ [e]"
proof (induction s)
  case Nil
  then show ?case by (simp add: js_split_no_sep)
next
  case (Cons x s)
  obtain p ps where ps: "js_split c s = p # ps"
    using js_split_not_Nil[of c s] by (cases "js_split c s") auto
  with Cons show ?case by auto
qed

lemma fileNameWithoutExt_strip:
  "CHR ''.'' \<notin> set e \<Longrightarrow> fileNameWithoutExt (s @ CHR ''.'' # e) = s"
  by (simp add: fileNameWithoutExt_def js_split_snoc js_join_split)

lemma collect_loop_ok:
  "distinct (map fileNameWithoutExt es) \<Longrightarrow> fileNameWithoutExt ` set es \<inter> names = {} \<Longrightarrow>
   collect_loop dir es paths names = Inr (paths @ es)"
  by (induction es arbitrary: paths names) auto

lemma collect_loop_conflict:
  "\<not> (distinct (map fileNameWithoutExt es) \<and> fileNameWithoutExt ` set es \<inter> names = {}) \<Longrightarrow>
   \<exists>k. collect_loop dir es paths names = Inl (Error (''Route conflict detected. Multiple files have the same name: '' @ dir @ k)) \<and>
       ((k \<in> names \<and> k \<in> fileNameWithoutExt ` set es) \<or> 2 \<le> count_list (map fileNameWithoutExt es) k)"
proof (induction es arbitrary: paths names)
  case Nil
  then show ?case by simp
next
  case (Cons e es)
  show ?case
  proof (cases "fileNameWithoutExt e \<in> names")
    case True
    then show ?thesis by auto
  next
    case False
    from Cons.prems False
    have bad: "\<not> (distinct (map fileNameWithoutExt es) \<and>
                 fileNameWithoutExt ` set es \<inter> insert (fileNameWithoutExt e) names = {})"
      by auto
    from Cons.IH[OF bad, of "paths @ [e]"] obtain k where
      k: "collect_loop dir es (paths @ [e]) (insert (fileNameWithoutExt e) names) =
            Inl (Error (''Route conflict detected. Multiple files have the same name: '' @ dir @ k))"
         "(k \<in> insert (fileNameWithoutExt e) names \<and> k \<in> fileNameWithoutExt ` set es) \<or>
          2 \<le> count_list (map fileNameWithoutExt es) k"
      by blast
    have pos: "0 < count_list (map fileNameWithoutExt es) k" if "k \<in> fileNameWithoutExt ` set es"
      using that count_list_0_iff[of "map fileNameWithoutExt es" k] by auto
    have mono: "count_list (map fileNameWithoutExt es) k \<le>
                count_list (map fileNameWithoutExt (e # es)) k"
      by simp
    have "(k \<in> names \<and> k \<in> fileNameWithoutExt ` set (e # es)) \<or>
          2 \<le> count_list (map fileNameWithoutExt (e # es)) k"
    proof (cases "2 \<le> count_list (map fileNameWithoutExt es) k")
      case True
      with mono show ?thesis by linarith
    next
      case no2: False
      with k(2) have mem: "k \<in> fileNameWithoutExt ` set es"
        and ins: "k \<in> insert (fileNameWithoutExt e) names"
        by blast+
      show ?thesis
      proof (cases "k \<in> names")
        case True
        with mem show ?thesis by simp
      next
        case False
        with ins have "k = fileNameWithoutExt e" by simp
        with pos[OF mem] show ?thesis by simp
      qed
    qed
    moreover have "collect_loop dir (e # es) paths names =
        collect_loop dir es (paths @ [e]) (insert (fileNameWithoutExt e) names)"
      using False by simp
    ultimately show ?thesis using k(1) by metis
  qed
qed

lemma walk_files_of:
  "\<not> includeDirs opts \<Longrightarrow> includeFiles opts \<Longrightarrow>
   walk opts p t = filter (include_path (exts opts)) (files_of p t)"
  by (induction opts p t rule: walk.induct)
     (auto simp: filter_concat comp_def intro!: arg_cong[where f=concat])

lemma walk_collectDir:
  "walk collectDir_options p t = filter (include_path (exts collectDir_options)) (files_of p t)"
  by (rule walk_files_of) (simp_all add: collectDir_options_def)


lemma count_list_two:
  "2 \<le> count_list xs k \<Longrightarrow> \<exists>a b. a < b \<and> b < length xs \<and> xs ! a = k \<and> xs ! b = k"
proof (induction xs)
  case Nil
  then show ?case by simp
next
  case (Cons x xs)
  show ?case
  proof (cases "x = k")
    case True
    with Cons.prems have "0 < count_list xs k" by simp
    then have "k \<in> set xs"
      using count_list_0_iff[of xs k] by auto
    then obtain n where "n < length xs" "xs ! n = k"
      by (auto simp: in_set_conv_nth)
    with True have "0 < Suc n \<and> Suc n < length (x # xs) \<and> (x # xs) ! 0 = k \<and> (x # xs) ! Suc n = k"
      by simp
    then show ?thesis by blast
  next
    case False
    with Cons.prems have "2 \<le> count_list xs k" by simp
    from Cons.IH[OF this] obtain a b where "a < b" "b < length xs" "xs ! a = k" "xs ! b = k"
      by blast
    then have "Suc a < Suc b \<and> Suc b < length (x # xs) \<and> (x # xs) ! Suc a = k \<and> (x # xs) ! Suc b = k"
      by simp
    then show ?thesis by blast
  qed
qed

lemma endsWith_split: "endsWith p t \<Longrightarrow> \<exists>s. p = s @ t"
  by (metis endsWith_def append_take_drop_id)

lemma matching_path_shape:
  assumes "include_path [''tsx'', ''jsx'', ''ts'', ''js''] p"
  shows "\<exists>e. CHR ''.'' \<notin> set e \<and> p = fileNameWithoutExt p @ ''.'' @ e"
proof -
  from assms obtain e where e: "e \<in> set [''tsx'', ''jsx'', ''ts'', ''js'']"
    and en: "endsWith p (CHR ''.'' # e)"
    by (auto simp: include_path_def)
  from e have nd: "CHR ''.'' \<notin> set e" by auto
  from en obtain s where p: "p = s @ CHR ''.'' # e"
    using endsWith_split by blast
  have "fileNameWithoutExt p = s"
    unfolding p by (rule fileNameWithoutExt_strip[OF nd])
  with p nd show ?thesis by auto
qed

text \<open>
  For a matching file, whose path is a stem followed by a dot and an extension without
  dots, the key that \<open>collectDir\<close> computes is the stem: the path with its final extension
  stripped (lemma \<open>fileNameWithoutExt_strip\<close>).
\<close>

text \<open>
  C3. When the scanned path is a directory in whose tree no two matching files (extension
  tsx, jsx, ts or js) have the same key (relative path with the final extension stripped),
  \<open>collectDir\<close> returns a list that is sorted lexicographically, has no duplicates and
  holds exactly the relative paths of the matching files of the tree, each once: nothing for
  directories or for files with other extensions.
\<close>

theorem collectDir_sorted_complete:
  assumes "fs dir = Inr (Dir es)"
    and "distinct (map fileNameWithoutExt
           (filter (include_path [''tsx'', ''jsx'', ''ts'', ''js'']) (files_of [] (Dir es))))"
  shows "\<exists>ps. collectDir fs dir = Inr ps \<and> sorted ps \<and> distinct ps \<and>
           mset ps = mset (filter (include_path [''tsx'', ''jsx'', ''ts'', ''js''])
                             (files_of [] (Dir es))) \<and>
           (\<forall>p \<in> set ps. p \<in> set (files_of [] (Dir es)) \<and>
                             include_path [''tsx'', ''jsx'', ''ts'', ''js''] p)"
proof -
  let ?ws = "filter (include_path [''tsx'', ''jsx'', ''ts'', ''js'']) (files_of [] (Dir es))"
  have w: "walk collectDir_options [] (Dir es) = ?ws"
    by (simp only: walk_collectDir) (simp add: collectDir_options_def)
  have loop: "collect_loop dir ?ws [] {} = Inr ?ws"
    using collect_loop_ok[OF assms(2), of "{}" dir "[]"] by simp
  have "collect_loop dir (walk collectDir_options [] (Dir es)) [] {} = Inr ?ws"
    by (simp only: w loop)
  then have res: "collectDir fs dir = Inr (sort ?ws)"
    using assms(1) by (simp add: collectDir_def del: walk.simps)
  have "distinct ?ws"
    using assms(2) by (rule distinct_map[THEN iffD1, THEN conjunct1])
  with res show ?thesis by simp
qed


theorem collectDir_sorted_complete_witness:
  "distinct (map fileNameWithoutExt
      (filter (include_path [''tsx'', ''jsx'', ''ts'', ''js''])
         (files_of [] (Dir [(''b'', Dir [(''c.ts'', File), (''x.md'', File)]),
                            (''a.ts'', File), (''A.tsx'', File)])))) \<and>
   (\<exists>ps. collectDir (\<lambda>p. Inr (Dir [(''b'', Dir [(''c.ts'', File), (''x.md'', File)]),
                                    (''a.ts'', File), (''A.tsx'', File)])) ''/proj/routes'' = Inr ps \<and>
      sorted ps \<and> distinct ps \<and>
      mset ps = mset [''b/c.ts'', ''a.ts'', ''A.tsx''] \<and>
      ''b/x.md'' \<notin> set ps \<and> ''b'' \<notin> set ps)"
proof -
  let ?es = "[(''b'', Dir [(''c.ts'', File), (''x.md'', File)]), (''a.ts'', File), (''A.tsx'', File)]"
  have fl: "filter (include_path [''tsx'', ''jsx'', ''ts'', ''js'']) (files_of [] (Dir ?es)) =
            [''b/c.ts'', ''a.ts'', ''A.tsx'']"
    by (simp add: include_path_def endsWith_def child_path_def)
  have h: "distinct (map fileNameWithoutExt
             (filter (include_path [''tsx'', ''jsx'', ''ts'', ''js'']) (files_of [] (Dir ?es))))"
    by (simp only: fl) (simp add: fileNameWithoutExt_def)
  from collectDir_sorted_complete [of "\<lambda>p. Inr (Dir ?es)" "''/proj/routes''" ?es, OF _ h]
  obtain ps where ps: "collectDir (\<lambda>p. Inr (Dir ?es)) ''/proj/routes'' = Inr ps"
    "sorted ps" "distinct ps"
    "mset ps = mset (filter (include_path [''tsx'', ''jsx'', ''ts'', ''js''])
                       (files_of [] (Dir ?es)))"
    by auto
  from ps(4) have m: "mset ps = mset [''b/c.ts'', ''a.ts'', ''A.tsx'']"
    by (simp only: fl)
  from m have "set ps = set [''b/c.ts'', ''a.ts'', ''A.tsx'']"
    by (rule mset_eq_setD)
  then have n: "''b/x.md'' \<notin> set ps" "''b'' \<notin> set ps"
    by simp_all
  from h ps(1-3) m n show ?thesis by blast
qed

text \<open>
  C4. When the scanned path is a directory in whose tree two matching files have the same
  path up to the final extension (such as \<open>foo.ts\<close> and \<open>foo.tsx\<close>), \<open>collectDir\<close> returns
  no list: it fails with an \<open>Error\<close> whose message is the text
  \<open>Route conflict detected. Multiple files have the same name: \<close> followed by the scanned
  directory and by a key, and that key is the path without its final extension of two
  different matching files of the tree.
\<close>

theorem collectDir_conflict:
  assumes "fs dir = Inr (Dir es)"
    and "ws = filter (include_path [''tsx'', ''jsx'', ''ts'', ''js'']) (files_of [] (Dir es))"
    and "i < j" and "j < length ws"
    and "ws ! i = stem @ ''.'' @ e1" and "ws ! j = stem @ ''.'' @ e2"
    and "CHR ''.'' \<notin> set e1" and "CHR ''.'' \<notin> set e2"
  shows "\<exists>k a b ea eb.
           collectDir fs dir =
             Inl (Error (''Route conflict detected. Multiple files have the same name: '' @
                         dir @ k)) \<and>
           a < b \<and> b < length ws \<and>
           ws ! a = k @ ''.'' @ ea \<and> ws ! b = k @ ''.'' @ eb \<and>
           CHR ''.'' \<notin> set ea \<and> CHR ''.'' \<notin> set eb"
proof -
  have w: "walk collectDir_options [] (Dir es) = ws"
    by (simp only: walk_collectDir assms(2)) (simp add: collectDir_options_def)
  have ki: "fileNameWithoutExt (ws ! i) = stem"
    using fileNameWithoutExt_strip[OF assms(7), of stem] by (simp add: assms(5))
  have kj: "fileNameWithoutExt (ws ! j) = stem"
    using fileNameWithoutExt_strip[OF assms(8), of stem] by (simp add: assms(6))
  have "\<not> distinct (map fileNameWithoutExt ws)"
  proof
    assume d: "distinct (map fileNameWithoutExt ws)"
    have "i < length ws" "i \<noteq> j"
      using assms(3,4) by simp_all
    with d assms(4) have "fileNameWithoutExt (ws ! i) \<noteq> fileNameWithoutExt (ws ! j)"
      by (simp add: distinct_conv_nth)
    with ki kj show False by simp
  qed
  from collect_loop_conflict[of ws "{}" dir "[]"] this obtain k where
    loop: "collect_loop dir ws [] {} =
      Inl (Error (''Route conflict detected. Multiple files have the same name: '' @ dir @ k))"
    and two: "2 \<le> count_list (map fileNameWithoutExt ws) k"
    by auto
  from loop have "collect_loop dir (walk collectDir_options [] (Dir es)) [] {} =
      Inl (Error (''Route conflict detected. Multiple files have the same name: '' @ dir @ k))"
    by (simp only: w)
  then have res: "collectDir fs dir =
      Inl (Error (''Route conflict detected. Multiple files have the same name: '' @ dir @ k))"
    using assms(1) by (simp add: collectDir_def del: walk.simps)
  from count_list_two[OF two] obtain a b where ab: "a < b" "b < length ws"
    and ka: "fileNameWithoutExt (ws ! a) = k" and kb: "fileNameWithoutExt (ws ! b) = k"
    by auto
  have "ws ! a \<in> set ws" "ws ! b \<in> set ws"
    using ab by simp_all
  then have "include_path [''tsx'', ''jsx'', ''ts'', ''js''] (ws ! a)"
    and "include_path [''tsx'', ''jsx'', ''ts'', ''js''] (ws ! b)"
    by (simp_all add: assms(2))
  from matching_path_shape[OF this(1)] matching_path_shape[OF this(2)]
  obtain ea eb where "CHR ''.'' \<notin> set ea" "ws ! a = k @ ''.'' @ ea"
    "CHR ''.'' \<notin> set eb" "ws ! b = k @ ''.'' @ eb"
    unfolding ka kb by blast
  with res ab show ?thesis by blast
qed

theorem collectDir_conflict_witness:
  "collectDir (\<lambda>p. Inr (Dir [(''foo.ts'', File), (''foo.tsx'', File)])) ''/proj/routes/'' =
     Inl (Error ''Route conflict detected. Multiple files have the same name: /proj/routes/foo'')"
proof -
  let ?es = "[(''foo.ts'', File), (''foo.tsx'', File)]"
  have fl: "[''foo.ts'', ''foo.tsx''] =
            filter (include_path [''tsx'', ''jsx'', ''ts'', ''js'']) (files_of [] (Dir ?es))"
    by (simp add: include_path_def endsWith_def child_path_def)
  from collectDir_conflict [of "\<lambda>p. Inr (Dir ?es)" "''/proj/routes/''" ?es
      "[''foo.ts'', ''foo.tsx'']" 0 1 "''foo''" "''ts''" "''tsx''", OF _ fl]
  obtain k a b ea eb where r: "collectDir (\<lambda>p. Inr (Dir ?es)) ''/proj/routes/'' =
       Inl (Error (''Route conflict detected. Multiple files have the same name: '' @
                   ''/proj/routes/'' @ k))"
    and ab: "a < b" "b < length [''foo.ts'', ''foo.tsx'']"
    and ka: "[''foo.ts'', ''foo.tsx''] ! a = k @ ''.'' @ ea" and nd: "CHR ''.'' \<notin> set ea"
    by auto
  from ab have a0: "a = 0" by simp
  from ka have "fileNameWithoutExt ([''foo.ts'', ''foo.tsx''] ! a) = k"
    using fileNameWithoutExt_strip[OF nd, of k] by simp
  then have "k = ''foo''"
    unfolding a0 by (simp add: fileNameWithoutExt_def)
  with r show ?thesis by simp
qed

text \<open>
  C5. When \<open>Deno.stat\<close> of the path fails with a not-found error, and when the path exists
  but is not a directory, \<open>collectDir\<close> returns the empty list and raises nothing; when the
  stat fails with an error of any other kind, \<open>collectDir\<close> fails with that same error.
\<close>

theorem collectDir_stat:
  "(fs dir = Inl (NotFound m) \<longrightarrow> collectDir fs dir = Inr []) \<and>
   (fs dir = Inr node \<and> \<not> isDirectory node \<longrightarrow> collectDir fs dir = Inr []) \<and>
   (fs dir = Inl err \<and> (\<forall>m'. err \<noteq> NotFound m') \<longrightarrow> collectDir fs dir = Inl err)"
  by (auto simp: collectDir_def split: js_error.splits)


theorem collectDir_stat_witness:
  "collectDir (\<lambda>p. Inl (NotFound ''No such file or directory'')) ''/proj/routes'' = Inr [] \<and>
   collectDir (\<lambda>p. Inr File) ''/proj/routes'' = Inr [] \<and>
   collectDir (\<lambda>p. Inl (OtherError ''PermissionDenied'' ''os error 13'')) ''/proj/routes'' =
     Inl (OtherError ''PermissionDenied'' ''os error 13'')"
  using collectDir_stat [of "\<lambda>p. Inl (NotFound ''No such file or directory'')" "''/proj/routes''"
      "''No such file or directory''" File "NotFound ''No such file or directory''"]
    collectDir_stat [of "\<lambda>p. Inr File" "''/proj/routes''" "[]" File "NotFound []"]
    collectDir_stat [of "\<lambda>p. Inl (OtherError ''PermissionDenied'' ''os error 13'')"
      "''/proj/routes''" "[]" File "OtherError ''PermissionDenied'' ''os error 13''"]
  by simp

section \<open>Properties of the manifest generator\<close>

lemma startsWith_replace_backslashes:
  "startsWith (replace_backslashes s) ''..'' = startsWith s ''..''"
proof (cases s)
  case Nil
  then show ?thesis by (simp add: startsWith_def replace_backslashes_def)
next
  case (Cons a t)
  then show ?thesis
    by (cases t) (auto simp: startsWith_def replace_backslashes_def)
qed

lemma no_backslash_replace: "BSL \<notin> set (replace_backslashes s)"
  by (auto simp: replace_backslashes_def)

text \<open>
  C9. For every input path (and every \<open>posix.normalize\<close>), the specifier that
  \<open>toImportSpecifier\<close> returns contains no backslash, and it is never without a dot prefix:
  when the normalized path begins with \<open>..\<close> it is that path (backslashes replaced), still
  beginning with \<open>..\<close>; otherwise it is \<open>./\<close> followed by that path.
\<close>

theorem toImportSpecifier_shape:
  "BSL \<notin> set (toImportSpecifier P file) \<and>
   (startsWith (posix_normalize P file) ''..'' \<longrightarrow>
      toImportSpecifier P file = replace_backslashes (posix_normalize P file) \<and>
      startsWith (toImportSpecifier P file) ''..'') \<and>
   (\<not> startsWith (posix_normalize P file) ''..'' \<longrightarrow>
      toImportSpecifier P file = ''./'' @ replace_backslashes (posix_normalize P file) \<and>
      startsWith (toImportSpecifier P file) ''./'')"
proof -
  have nb: "BSL \<notin> set (replace_backslashes (posix_normalize P file))"
    by (rule no_backslash_replace)
  show ?thesis
    using nb
    by (simp add: toImportSpecifier_def Let_def startsWith_replace_backslashes)
       (simp add: startsWith_def)
qed

theorem toImportSpecifier_shape_witness:
  "toImportSpecifier (posix_path ''/'') (''routes'' @ [BSL] @ ''a.ts'') = ''./routes/a.ts'' \<and>
   toImportSpecifier (posix_path ''/'') ''../routes/b/../a.ts'' = ''../routes/a.ts''"
proof -
  have n1: "posix_normalize (posix_path ''/'') (''routes'' @ [BSL] @ ''a.ts'') = ''routes'' @ [BSL] @ ''a.ts''"
    by (simp add: posix_path_def posix_normalize_impl_def normalizeString_def)
  have n2: "posix_normalize (posix_path ''/'') ''../routes/b/../a.ts'' = ''../routes/a.ts''"
    by (simp add: posix_path_def posix_normalize_impl_def normalizeString_def)
  have s1: "\<not> startsWith (''routes'' @ [BSL] @ ''a.ts'') ''..''"
    and s2: "startsWith ''../routes/a.ts'' ''..''"
    by (simp_all add: startsWith_def)
  from toImportSpecifier_shape [of "posix_path ''/''" "''routes'' @ [BSL] @ ''a.ts''"]
    toImportSpecifier_shape [of "posix_path ''/''" "''../routes/b/../a.ts''"]
  show ?thesis
    by (simp only: n1 n2 s1 s2) (simp add: replace_backslashes_def)
qed

lemma nat_to_string_0: "nat_to_string 0 = ''0''"
  by (simp add: nat_to_string.simps digit_char_def)

lemma nat_to_string_1: "nat_to_string (Suc 0) = ''1''"
  by (simp add: nat_to_string.simps digit_char_def)

lemma map_index_2: "map_index f [x, y] = [f x 0, f y (Suc 0)]"
  by (simp add: map_index_def upt_rec)

lemma map_index_0: "map_index f [] = []"
  by (simp add: map_index_def)

lemma posix_join_routes_a: "posix_join_impl [''routes'', ''a.ts''] = ''routes/a.ts''"
  by (simp add: posix_join_impl_def posix_normalize_impl_def normalizeString_def)

lemma posix_join_routes_bc: "posix_join_impl [''routes'', ''b/c.ts''] = ''routes/b/c.ts''"
  by (simp add: posix_join_impl_def posix_normalize_impl_def normalizeString_def)

lemma posix_normalize_routes_a: "posix_normalize_impl ''routes/a.ts'' = ''routes/a.ts''"
  by (simp add: posix_normalize_impl_def normalizeString_def)

lemma posix_normalize_routes_bc: "posix_normalize_impl ''routes/b/c.ts'' = ''routes/b/c.ts''"
  by (simp add: posix_normalize_impl_def normalizeString_def)

lemma route_entry_a:
  "route_entry (posix_path wd) ''a.ts'' 0 = [DQ] @ ''./routes/a.ts'' @ [DQ] @ '': $0,''"
  by (simp add: route_entry_def posix_path_def posix_join_routes_a
      toImportSpecifier_def posix_normalize_routes_a replace_backslashes_def
      startsWith_def JSON_stringify_string_def json_escape_def nat_to_string_0)

lemma route_entry_bc:
  "route_entry (posix_path wd) ''b/c.ts'' (Suc 0) = [DQ] @ ''./routes/b/c.ts'' @ [DQ] @ '': $1,''"
  by (simp add: route_entry_def posix_path_def posix_join_routes_bc
      toImportSpecifier_def posix_normalize_routes_bc replace_backslashes_def
      startsWith_def JSON_stringify_string_def json_escape_def nat_to_string_1)

text \<open>
  C1, as the code has it. For the manifest with routes \<open>a.ts\<close> and \<open>b/c.ts\<close> and no
  islands, and POSIX paths, the text that \<open>generate\<close> produces is the header, one import
  statement for each route, and an object whose \<open>routes\<close> literal has exactly the two keys
  \<open>"./routes/a.ts"\<close> and \<open>"./routes/b/c.ts"\<close>, mapped to the distinct aliases \<open>$0\<close> and
  \<open>$1\<close>, whose \<open>islands\<close> literal is empty and which has a \<open>baseUrl\<close> field.
\<close>

theorem generate_output_routes_object:
  "generate_output (posix_path wd) directory cwd \<lparr>routes = [''a.ts'', ''b/c.ts''], islands = []\<rparr> =
      ''// DO NOT EDIT. This file is generated by Fresh.\<newline>'' @
      ''// This file SHOULD be checked into source version control.\<newline>'' @
      ''// This file is automatically updated during development when running '' @
        [BQ] @ ''dev.ts'' @ [BQ] @ ''.\<newline>'' @
      ''\<newline>'' @
      route_import (posix_path wd) (posix_relative_impl wd directory cwd) ''a.ts'' 0 @ ''\<newline>'' @
      route_import (posix_path wd) (posix_relative_impl wd directory cwd) ''b/c.ts'' (Suc 0) @ ''\<newline>'' @
      ''\<newline>'' @
      ''\<newline>'' @
      ''const manifest = {\<newline>'' @
      ''  routes: {\<newline>'' @
      ''    '' @ [DQ] @ ''./routes/a.ts'' @ [DQ] @ '': $0,\<newline>'' @
      ''    '' @ [DQ] @ ''./routes/b/c.ts'' @ [DQ] @ '': $1,\<newline>'' @
      ''  },\<newline>'' @
      ''  islands: {\<newline>'' @
      ''    \<newline>'' @
      ''  },\<newline>'' @
      ''  baseUrl: import.meta.url,\<newline>'' @
      ''};\<newline>'' @
      ''\<newline>'' @
      ''export default manifest;\<newline>''"
  unfolding generate_output_def Let_def
  by (simp add: route_entry_a route_entry_bc map_index_0 map_index_2) (simp add: posix_path_def)

theorem generate_output_routes_object_witness:
  "generate_output (posix_path ''/'') ''/proj/.fresh'' ''/proj''
      \<lparr>routes = [''a.ts'', ''b/c.ts''], islands = []\<rparr> =
      ''// DO NOT EDIT. This file is generated by Fresh.\<newline>'' @
      ''// This file SHOULD be checked into source version control.\<newline>'' @
      ''// This file is automatically updated during development when running '' @
        [BQ] @ ''dev.ts'' @ [BQ] @ ''.\<newline>'' @
      ''\<newline>'' @
      ''import * as $0 from '' @ [DQ] @ ''../routes/a.ts'' @ [DQ] @ '';\<newline>'' @
      ''import * as $1 from '' @ [DQ] @ ''../routes/b/c.ts'' @ [DQ] @ '';\<newline>'' @
      ''\<newline>'' @
      ''\<newline>'' @
      ''const manifest = {\<newline>'' @
      ''  routes: {\<newline>'' @
      ''    '' @ [DQ] @ ''./routes/a.ts'' @ [DQ] @ '': $0,\<newline>'' @
      ''    '' @ [DQ] @ ''./routes/b/c.ts'' @ [DQ] @ '': $1,\<newline>'' @
      ''  },\<newline>'' @
      ''  islands: {\<newline>'' @
      ''    \<newline>'' @
      ''  },\<newline>'' @
      ''  baseUrl: import.meta.url,\<newline>'' @
      ''};\<newline>'' @
      ''\<newline>'' @
      ''export default manifest;\<newline>''"
proof -
  have r: "posix_relative_impl ''/'' ''/proj/.fresh'' ''/proj'' = ''..''"
    by (simp add: posix_relative_impl_def posix_resolve_segments_def startsWith_def)
  have i0: "route_import (posix_path ''/'') ''..'' ''a.ts'' 0 =
      ''import * as $0 from '' @ [DQ] @ ''../routes/a.ts'' @ [DQ] @ '';''"
    by (simp add: route_import_def posix_path_def posix_join_impl_def posix_normalize_impl_def
        normalizeString_def toImportSpecifier_def replace_backslashes_def startsWith_def
        nat_to_string_0)
  have i1: "route_import (posix_path ''/'') ''..'' ''b/c.ts'' (Suc 0) =
      ''import * as $1 from '' @ [DQ] @ ''../routes/b/c.ts'' @ [DQ] @ '';''"
    by (simp add: route_import_def posix_path_def posix_join_impl_def posix_normalize_impl_def
        normalizeString_def toImportSpecifier_def replace_backslashes_def startsWith_def
        nat_to_string_1)
  from generate_output_routes_object [of "''/''" "''/proj/.fresh''" "''/proj''"]
  show ?thesis by (simp only: r i0 i1) simp
qed

text \<open>
  The claim as it is written fails: for the output directory \<open>/proj/.fresh\<close> of the project
  \<open>/proj\<close>, the key \<open>"./a.ts"\<close> does not occur anywhere in the generated text.
\<close>

theorem generate_output_key_counterexample:
  "\<not> js_includes (generate_output (posix_path ''/'') ''/proj/.fresh'' ''/proj''
        \<lparr>routes = [''a.ts'', ''b/c.ts''], islands = []\<rparr>) ([DQ] @ ''./a.ts'' @ [DQ])"
  by code_simp

section \<open>Properties of the dev orchestrator\<close>

lemma generate_calls:
  "calls (snd (generate D directory cwd manifest w)) =
     calls w @ [GenerateCall directory cwd manifest]"
  by (simp add: generate_def Let_def split: sum.splits option.splits)

lemma generate_environment:
  "environment (snd (generate D directory cwd manifest w)) = environment w"
  by (simp add: generate_def Let_def split: sum.splits option.splits)

lemma dev_manifest_reached:
  assumes "collectDir (disk w) (join (path_lib D) [dir, ''./routes'']) = Inr routePaths"
    and "collectDir (disk w) (join (path_lib D) [dir, ''./islands'']) = Inr islandPaths"
    and "load_currentManifest D w = Inr currentManifest"
  shows "dev_manifest D outDir dir w =
     (if \<not> exists D (textfiles w) (toFileUrl_href D (join (path_lib D) [outDir, ''fresh.gen.ts''])) \<or>
         manifestChanged \<lparr>routes = routePaths, islands = islandPaths\<rparr> currentManifest
      then (case generate D outDir dir \<lparr>routes = routePaths, islands = islandPaths\<rparr>
                   (env_recorded \<lparr>routes = routePaths, islands = islandPaths\<rparr> w) of
              (Inl err, w2) \<Rightarrow> (Inl err, w2)
            | (Inr manifestPath, w2) \<Rightarrow> (Inr (), w2))
      else (Inr (), env_recorded \<lparr>routes = routePaths, islands = islandPaths\<rparr> w))"
  using assms by (simp add: dev_manifest_def env_recorded_def Let_def)

lemma snd_case_generate:
  "snd (case r of (Inl err, w2) \<Rightarrow> (Inl err, w2) | (Inr p, w2) \<Rightarrow> (Inr (), w2)) = snd r"
  by (cases r) (auto split: sum.splits)

lemma dev_manifest_calls:
  assumes "collectDir (disk w) (join (path_lib D) [dir, ''./routes'']) = Inr routePaths"
    and "collectDir (disk w) (join (path_lib D) [dir, ''./islands'']) = Inr islandPaths"
    and "load_currentManifest D w = Inr currentManifest"
  shows "calls (snd (dev_manifest D outDir dir w)) =
     calls w @
     EnvSet FRSH_DEV_PREVIOUS_MANIFEST
        (JSON_stringify_manifest \<lparr>routes = routePaths, islands = islandPaths\<rparr>) #
     (if \<not> exists D (textfiles w) (toFileUrl_href D (join (path_lib D) [outDir, ''fresh.gen.ts''])) \<or>
         manifestChanged \<lparr>routes = routePaths, islands = islandPaths\<rparr> currentManifest
      then [GenerateCall outDir dir \<lparr>routes = routePaths, islands = islandPaths\<rparr>] else [])"
  by (simp add: dev_manifest_reached[OF assms] snd_case_generate generate_calls)
     (simp add: env_recorded_def)

lemma dev_manifest_environment:
  assumes "collectDir (disk w) (join (path_lib D) [dir, ''./routes'']) = Inr routePaths"
    and "collectDir (disk w) (join (path_lib D) [dir, ''./islands'']) = Inr islandPaths"
    and "load_currentManifest D w = Inr currentManifest"
  shows "environment (snd (dev_manifest D outDir dir w)) =
     (environment w)(FRSH_DEV_PREVIOUS_MANIFEST \<mapsto>
        JSON_stringify_manifest \<lparr>routes = routePaths, islands = islandPaths\<rparr>)"
  by (simp add: dev_manifest_reached[OF assms] snd_case_generate generate_environment)
     (simp add: env_recorded_def)

lemma dev_manifest_reused:
  assumes "collectDir (disk w) (join (path_lib D) [dir, ''./routes'']) = Inr routePaths"
    and "collectDir (disk w) (join (path_lib D) [dir, ''./islands'']) = Inr islandPaths"
    and "load_currentManifest D w = Inr currentManifest"
    and "exists D (textfiles w) (toFileUrl_href D (join (path_lib D) [outDir, ''fresh.gen.ts'']))"
    and "\<not> manifestChanged \<lparr>routes = routePaths, islands = islandPaths\<rparr> currentManifest"
  shows "fst (dev_manifest D outDir dir w) = Inr () \<and>
         textfiles (snd (dev_manifest D outDir dir w)) = textfiles w"
  using assms(4,5) by (simp add: dev_manifest_reached[OF assms(1-3)] env_recorded_def)

text \<open>
  A cycle in which a directory scan or the reading of the previous manifest fails ends with
  an error before the environment is written: the world is left as it was.
\<close>

lemma dev_manifest_early_failure:
  assumes "\<not> (\<exists>routePaths islandPaths currentManifest.
      collectDir (disk w) (join (path_lib D) [dir, ''./routes'']) = Inr routePaths \<and>
      collectDir (disk w) (join (path_lib D) [dir, ''./islands'']) = Inr islandPaths \<and>
      load_currentManifest D w = Inr currentManifest)"
  shows "\<exists>err. dev_manifest D outDir dir w = (Inl err, w)"
  using assms by (auto simp: dev_manifest_def split: sum.splits)

lemma manifestChanged_empty:
  "manifestChanged m \<lparr>routes = [], islands = []\<rparr> = (routes m \<noteq> [] \<or> islands m \<noteq> [])"
  by (auto simp: manifestChanged_def arraysEqual_iff)

lemma JSON_stringify_manifest_nonempty: "JSON_stringify_manifest m \<noteq> []"
  by (simp add: JSON_stringify_manifest_def)


lemma example_collect_routes:
  "collectDir (disk (example_world prev present))
     (join (path_lib (example_deps ok)) [''/proj'', ''./routes'']) = Inr [''a.ts'']"
  by (simp add: example_world_def example_deps_def posix_path_def posix_join_impl_def
      posix_normalize_impl_def normalizeString_def collectDir_def collectDir_options_def
      include_path_def endsWith_def child_path_def fileNameWithoutExt_def)

lemma example_collect_islands:
  "collectDir (disk (example_world prev present))
     (join (path_lib (example_deps ok)) [''/proj'', ''./islands'']) = Inr []"
  by (simp add: example_world_def example_deps_def posix_path_def posix_join_impl_def
      posix_normalize_impl_def normalizeString_def collectDir_def)

lemma example_load_previous:
  "load_currentManifest (example_deps ok)
     (example_world (Some (JSON_stringify_manifest example_manifest)) present) = Inr example_manifest"
  by (simp add: load_currentManifest_def example_world_def example_deps_def
      JSON_stringify_manifest_nonempty)

lemma example_load_none:
  "load_currentManifest (example_deps ok) (example_world None present) =
     Inr \<lparr>routes = [], islands = []\<rparr>"
  by (simp add: load_currentManifest_def example_world_def)

lemma example_manifest_path:
  "join (path_lib (example_deps ok)) [''/proj/.fresh'', ''fresh.gen.ts''] =
     ''/proj/.fresh/fresh.gen.ts''"
  by (simp add: example_deps_def posix_path_def posix_join_impl_def
      posix_normalize_impl_def normalizeString_def)

lemma example_exists:
  "exists (example_deps ok) (textfiles (example_world prev present))
     (toFileUrl_href (example_deps ok)
        (join (path_lib (example_deps ok)) [''/proj/.fresh'', ''fresh.gen.ts''])) = False"
  by (simp only: example_manifest_path) (simp add: example_world_def example_deps_def)

lemma example_effects:
  "deno_fmt (example_deps True) output = Inr output"
  "mkdir_error (example_deps ok) path = None"
  "write_error (example_deps ok) path = None"
  by (simp_all add: example_deps_def)

lemma example_stringify:
  "JSON_stringify_manifest example_manifest =
     ''{'' @ [DQ] @ ''routes'' @ [DQ] @ '':['' @ [DQ] @ ''a.ts'' @ [DQ] @ ''],'' @
     [DQ] @ ''islands'' @ [DQ] @ '':[]}''"
  by (simp add: JSON_stringify_manifest_def JSON_stringify_array_def JSON_stringify_string_def
      json_escape_def example_manifest_def)

lemma example_fails:
  "fst (dev_manifest (example_deps False) ''/proj/.fresh'' ''/proj'' (example_world None True)) =
     Inl (OtherError ''NotFound'' ''deno'')"
  apply (simp add: dev_manifest_reached[OF example_collect_routes example_collect_islands example_load_none])
  apply (simp add: example_exists manifestChanged_empty)
  apply (simp add: generate_def example_deps_def)
  done

text \<open>
  C6. The code misses what the claim says. \<open>generate\<close> writes the manifest under the path
  \<open>join(directory, "fresh.gen.ts")\<close>, but \<open>dev\<close> asks \<open>exists\<close> about the \<open>href\<close> string
  of the file URL of that path. When \<open>exists\<close> takes a string as a path and no file is
  stored under the URL string as its name, \<open>hasOutDir\<close> is false: every cycle that reaches
  the test calls \<open>generate\<close>, also when the manifest file is present and the manifest is
  unchanged.
\<close>

theorem dev_regenerates_present_manifest:
  assumes "collectDir (disk w) (join (path_lib D) [dir, ''./routes'']) = Inr routePaths"
    and "collectDir (disk w) (join (path_lib D) [dir, ''./islands'']) = Inr islandPaths"
    and "load_currentManifest D w = Inr currentManifest"
    and "\<forall>files path. exists D files path = (files path \<noteq> None)"
    and "textfiles w (toFileUrl_href D (join (path_lib D) [outDir, ''fresh.gen.ts''])) = None"
  shows "calls (snd (dev_manifest D outDir dir w)) =
           calls w @
           [EnvSet FRSH_DEV_PREVIOUS_MANIFEST
              (JSON_stringify_manifest \<lparr>routes = routePaths, islands = islandPaths\<rparr>),
            GenerateCall outDir dir \<lparr>routes = routePaths, islands = islandPaths\<rparr>]"
proof -
  have "\<not> exists D (textfiles w) (toFileUrl_href D (join (path_lib D) [outDir, ''fresh.gen.ts'']))"
    using assms(4,5) by simp
  then show ?thesis
    by (simp add: dev_manifest_calls[OF assms(1-3)])
qed

text \<open>
  The failing input: the project \<open>/proj\<close> with the route \<open>a.ts\<close>, the manifest file present
  in \<open>/proj/.fresh\<close> and the previous manifest equal to the new one. \<open>generate\<close> is called
  and writes the file again.
\<close>

theorem dev_regenerates_present_manifest_witness:
  "textfiles (example_world (Some (JSON_stringify_manifest example_manifest)) True)
     ''/proj/.fresh/fresh.gen.ts'' = Some ''old'' \<and>
   load_currentManifest (example_deps True)
     (example_world (Some (JSON_stringify_manifest example_manifest)) True) = Inr example_manifest \<and>
   \<not> manifestChanged example_manifest example_manifest \<and>
   calls (snd (dev_manifest (example_deps True) ''/proj/.fresh'' ''/proj''
      (example_world (Some (JSON_stringify_manifest example_manifest)) True))) =
     [EnvSet FRSH_DEV_PREVIOUS_MANIFEST (JSON_stringify_manifest example_manifest),
      GenerateCall ''/proj/.fresh'' ''/proj'' example_manifest] \<and>
   textfiles (snd (dev_manifest (example_deps True) ''/proj/.fresh'' ''/proj''
      (example_world (Some (JSON_stringify_manifest example_manifest)) True)))
     ''/proj/.fresh/fresh.gen.ts'' =
     Some (generate_output (posix_path ''/'') ''/proj/.fresh'' ''/proj'' example_manifest)"
proof -
  let ?w = "example_world (Some (JSON_stringify_manifest example_manifest)) True"
  have m: "\<lparr>routes = [''a.ts''], islands = []\<rparr> = example_manifest"
    by (simp add: example_manifest_def)
  have f: "textfiles ?w ''/proj/.fresh/fresh.gen.ts'' = Some ''old''"
    by (simp add: example_world_def)
  have u: "\<not> manifestChanged example_manifest example_manifest"
    by (simp add: manifestChanged_def arraysEqual_iff)
  have x: "\<forall>files path. exists (example_deps True) files path = (files path \<noteq> None)"
    by (simp add: example_deps_def)
  have h: "textfiles ?w (toFileUrl_href (example_deps True)
      (join (path_lib (example_deps True)) [''/proj/.fresh'', ''fresh.gen.ts''])) = None"
    by (simp only: example_manifest_path) (simp add: example_world_def example_deps_def)
  have e: "calls ?w = []"
    by (simp add: example_world_def)
  have c: "calls (snd (dev_manifest (example_deps True) ''/proj/.fresh'' ''/proj'' ?w)) =
     [EnvSet FRSH_DEV_PREVIOUS_MANIFEST (JSON_stringify_manifest example_manifest),
      GenerateCall ''/proj/.fresh'' ''/proj'' example_manifest]"
    using dev_regenerates_present_manifest [OF
        example_collect_routes [of "Some (JSON_stringify_manifest example_manifest)" True True]
        example_collect_islands [of "Some (JSON_stringify_manifest example_manifest)" True True]
        example_load_previous [of True True] x h]
    by (simp only: m e) simp
  have g: "textfiles (snd (dev_manifest (example_deps True) ''/proj/.fresh'' ''/proj'' ?w))
     ''/proj/.fresh/fresh.gen.ts'' =
     Some (generate_output (posix_path ''/'') ''/proj/.fresh'' ''/proj'' example_manifest)"
    apply (simp only: dev_manifest_reached[OF
        example_collect_routes [of "Some (JSON_stringify_manifest example_manifest)" True True]
        example_collect_islands [of "Some (JSON_stringify_manifest example_manifest)" True True]
        example_load_previous [of True True]] example_exists m)
    apply (simp add: generate_def Let_def example_manifest_path example_effects)
    apply (simp add: example_deps_def)
    done
  from f example_load_previous [of True True] u c g show ?thesis by blast
qed

text \<open>
  C7. When the environment variable is not set, the previous manifest is the manifest with
  empty routes and islands, so the manifest counts as changed exactly when a route or an
  island has been collected; the dev cycle then calls \<open>generate\<close> exactly when the manifest
  file is not found or a route or an island has been collected.
\<close>

theorem dev_first_run_changed:
  assumes "collectDir (disk w) (join (path_lib D) [dir, ''./routes'']) = Inr routePaths"
    and "collectDir (disk w) (join (path_lib D) [dir, ''./islands'']) = Inr islandPaths"
    and "environment w FRSH_DEV_PREVIOUS_MANIFEST = None"
  shows "load_currentManifest D w = Inr \<lparr>routes = [], islands = []\<rparr> \<and>
         manifestChanged \<lparr>routes = routePaths, islands = islandPaths\<rparr>
            \<lparr>routes = [], islands = []\<rparr> = (routePaths \<noteq> [] \<or> islandPaths \<noteq> []) \<and>
         (GenerateCall outDir dir \<lparr>routes = routePaths, islands = islandPaths\<rparr>
            \<in> set (drop (length (calls w)) (calls (snd (dev_manifest D outDir dir w))))) =
           (\<not> exists D (textfiles w)
                (toFileUrl_href D (join (path_lib D) [outDir, ''fresh.gen.ts''])) \<or>
            routePaths \<noteq> [] \<or> islandPaths \<noteq> [])"
proof -
  have l: "load_currentManifest D w = Inr \<lparr>routes = [], islands = []\<rparr>"
    using assms(3) by (simp add: load_currentManifest_def)
  have c: "manifestChanged \<lparr>routes = routePaths, islands = islandPaths\<rparr>
            \<lparr>routes = [], islands = []\<rparr> = (routePaths \<noteq> [] \<or> islandPaths \<noteq> [])"
    by (simp add: manifestChanged_empty)
  show ?thesis
    by (simp add: l c dev_manifest_calls[OF assms(1,2) l])
qed

theorem dev_first_run_changed_witness:
  "environment (example_world None True) FRSH_DEV_PREVIOUS_MANIFEST = None \<and>
   load_currentManifest (example_deps True) (example_world None True) =
     Inr \<lparr>routes = [], islands = []\<rparr> \<and>
   manifestChanged \<lparr>routes = [''a.ts''], islands = []\<rparr> \<lparr>routes = [], islands = []\<rparr> \<and>
   GenerateCall ''/proj/.fresh'' ''/proj'' \<lparr>routes = [''a.ts''], islands = []\<rparr>
     \<in> set (drop (length (calls (example_world None True)))
          (calls (snd (dev_manifest (example_deps True) ''/proj/.fresh'' ''/proj''
             (example_world None True)))))"
proof -
  have n: "environment (example_world None True) FRSH_DEV_PREVIOUS_MANIFEST = None"
    by (simp add: example_world_def)
  from dev_first_run_changed [OF example_collect_routes [of None True True]
      example_collect_islands [of None True True] n, where outDir = "''/proj/.fresh''"] n
  show ?thesis by simp
qed

text \<open>
  C10. In a dev cycle in which both directory scans and the reading of the previous
  manifest succeed, the first thing logged is the call that stores the serialized new
  manifest in \<open>FRSH_DEV_PREVIOUS_MANIFEST\<close>, before any call of \<open>generate\<close>, and the
  variable still holds that text when the cycle ends, whatever its outcome: a failure of
  \<open>generate\<close> does not roll it back. A next cycle, whose \<open>JSON.parse\<close> reads the text
  back, finds the new manifest as its previous one.
\<close>

theorem dev_environment_recorded_first:
  assumes "collectDir (disk w) (join (path_lib D) [dir, ''./routes'']) = Inr routePaths"
    and "collectDir (disk w) (join (path_lib D) [dir, ''./islands'']) = Inr islandPaths"
    and "load_currentManifest D w = Inr currentManifest"
  shows "environment (snd (dev_manifest D outDir dir w)) FRSH_DEV_PREVIOUS_MANIFEST =
           Some (JSON_stringify_manifest \<lparr>routes = routePaths, islands = islandPaths\<rparr>) \<and>
         take 1 (drop (length (calls w)) (calls (snd (dev_manifest D outDir dir w)))) =
           [EnvSet FRSH_DEV_PREVIOUS_MANIFEST
              (JSON_stringify_manifest \<lparr>routes = routePaths, islands = islandPaths\<rparr>)] \<and>
         (JSON_parse D (JSON_stringify_manifest \<lparr>routes = routePaths, islands = islandPaths\<rparr>) =
            Inr \<lparr>routes = routePaths, islands = islandPaths\<rparr> \<longrightarrow>
          load_currentManifest D (snd (dev_manifest D outDir dir w)) =
            Inr \<lparr>routes = routePaths, islands = islandPaths\<rparr>)"
  by (simp add: dev_manifest_environment[OF assms] dev_manifest_calls[OF assms]
      load_currentManifest_def JSON_stringify_manifest_nonempty)

theorem dev_environment_recorded_first_witness:
  "fst (dev_manifest (example_deps False) ''/proj/.fresh'' ''/proj'' (example_world None True)) =
     Inl (OtherError ''NotFound'' ''deno'') \<and>
   environment (snd (dev_manifest (example_deps False) ''/proj/.fresh'' ''/proj''
      (example_world None True))) FRSH_DEV_PREVIOUS_MANIFEST =
     Some (''{'' @ [DQ] @ ''routes'' @ [DQ] @ '':['' @ [DQ] @ ''a.ts'' @ [DQ] @ ''],'' @
           [DQ] @ ''islands'' @ [DQ] @ '':[]}'') \<and>
   load_currentManifest (example_deps False)
     (snd (dev_manifest (example_deps False) ''/proj/.fresh'' ''/proj'' (example_world None True))) =
     Inr \<lparr>routes = [''a.ts''], islands = []\<rparr>"
proof -
  have m: "\<lparr>routes = [''a.ts''], islands = []\<rparr> = example_manifest"
    by (simp add: example_manifest_def)
  have p: "JSON_parse (example_deps False) (JSON_stringify_manifest example_manifest) =
             Inr example_manifest"
    by (simp add: example_deps_def)
  note t = dev_environment_recorded_first [OF example_collect_routes [of None True False]
      example_collect_islands [of None True False] example_load_none [of False True],
      where outDir = "''/proj/.fresh''", unfolded m]
  from t p have l: "load_currentManifest (example_deps False)
      (snd (dev_manifest (example_deps False) ''/proj/.fresh'' ''/proj'' (example_world None True))) =
      Inr example_manifest"
    by blast
  from t have e: "environment (snd (dev_manifest (example_deps False) ''/proj/.fresh'' ''/proj''
      (example_world None True))) FRSH_DEV_PREVIOUS_MANIFEST =
      Some (JSON_stringify_manifest example_manifest)"
    by blast
  from example_fails e l show ?thesis
    by (simp only: m example_stringify)
qed

section \<open>Properties of the entrypoint collector\<close>

text \<open>
  Each loop adds its pairs to the map in order, a later pair replacing an earlier one with the
  same key.
\<close>

lemma upd_map_add: "(ep(k \<mapsto> v)) ++ m = ep ++ ([k \<mapsto> v] ++ m)"
  by (rule ext) (simp add: map_add_def split: option.splits)

lemma islands_loop_eq:
  "islands_loop xs ep = ep ++ map_of (rev (island_pairs xs))"
proof (induction xs arbitrary: ep)
  case Nil
  then show ?case by (simp add: island_pairs_def)
next
  case (Cons x xs)
  have "islands_loop (x # xs) ep =
          (ep(''island-'' @ island_id x \<mapsto> island_url x)) ++ map_of (rev (island_pairs xs))"
    by (simp only: islands_loop.simps Cons.IH)
  also have "\<dots> = ep ++ ([''island-'' @ island_id x \<mapsto> island_url x] ++ map_of (rev (island_pairs xs)))"
    by (rule upd_map_add)
  also have "[''island-'' @ island_id x \<mapsto> island_url x] ++ map_of (rev (island_pairs xs)) =
             map_of (rev (island_pairs (x # xs)))"
    by (simp add: island_pairs_def)
  finally show ?case .
qed

lemma plugin_entries_loop_eq:
  "plugin_entries_loop pname es ep = ep ++ map_of (rev (plugin_entry_pairs pname es))"
proof (induction es arbitrary: ep)
  case Nil
  then show ?case by (simp add: plugin_entry_pairs_def)
next
  case (Cons e es)
  obtain name url where e: "e = (name, url)" by (cases e)
  have "plugin_entries_loop pname (e # es) ep =
          (ep(''plugin-'' @ pname @ ''-'' @ name \<mapsto> url)) ++ map_of (rev (plugin_entry_pairs pname es))"
    by (simp only: e plugin_entries_loop.simps Cons.IH)
  also have "\<dots> = ep ++ ([''plugin-'' @ pname @ ''-'' @ name \<mapsto> url] ++
                          map_of (rev (plugin_entry_pairs pname es)))"
    by (rule upd_map_add)
  also have "[''plugin-'' @ pname @ ''-'' @ name \<mapsto> url] ++ map_of (rev (plugin_entry_pairs pname es)) =
             map_of (rev (plugin_entry_pairs pname (e # es)))"
    by (simp add: plugin_entry_pairs_def e)
  finally show ?case .
qed

lemma plugin_pairs_Cons:
  "plugin_pairs (p # ps) =
     plugin_entry_pairs (plugin_name p) (plugin_entries p) @ plugin_pairs ps"
  by (simp add: plugin_pairs_def)

lemma plugins_loop_eq:
  "plugins_loop ps ep = ep ++ map_of (rev (plugin_pairs ps))"
proof (induction ps arbitrary: ep)
  case Nil
  then show ?case by (simp add: plugin_pairs_def)
next
  case (Cons p ps)
  let ?E = "plugin_entry_pairs (plugin_name p) (plugin_entries p)"
  have "plugins_loop (p # ps) ep = (ep ++ map_of (rev ?E)) ++ map_of (rev (plugin_pairs ps))"
    by (simp only: plugins_loop.simps Cons.IH plugin_entries_loop_eq)
  also have "\<dots> = ep ++ (map_of (rev ?E) ++ map_of (rev (plugin_pairs ps)))"
    by (rule map_add_assoc[symmetric])
  also have "map_of (rev ?E) ++ map_of (rev (plugin_pairs ps)) = map_of (rev (?E @ plugin_pairs ps))"
    by (simp only: rev_append map_of_append)
  finally show ?case by (simp only: plugin_pairs_Cons)
qed

lemma map_of_rev_last:
  "k \<in> fst ` set xs \<Longrightarrow> map_of (rev xs) k = Some (last_url xs k)"
proof (induction xs rule: rev_induct)
  case Nil
  then show ?case by simp
next
  case (snoc x xs)
  show ?case
  proof (cases "fst x = k")
    case True
    then show ?thesis by (simp add: last_url_def)
  next
    case False
    with snoc.prems have "k \<in> fst ` set xs" by auto
    from snoc.IH[OF this] False show ?thesis
      by (simp add: last_url_def)
  qed
qed

lemma map_of_rev_None: "k \<notin> fst ` set xs \<Longrightarrow> map_of (rev xs) k = None"
  by (simp add: map_of_eq_None_iff)

lemma island_keys: "k \<in> fst ` set (island_pairs xs) \<Longrightarrow> \<exists>i. k = ''island-'' @ i"
  by (auto simp: island_pairs_def)

lemma plugin_keys: "k \<in> fst ` set (plugin_pairs ps) \<Longrightarrow> \<exists>r. k = ''plugin-'' @ r"
  by (auto simp: plugin_pairs_def plugin_entry_pairs_def)

lemma island_key_mem:
  "i \<in> set xs \<Longrightarrow> ''island-'' @ island_id i \<in> fst ` set (island_pairs xs)"
  by (force simp: island_pairs_def)

lemma plugin_key_mem:
  "p \<in> set ps \<Longrightarrow> e \<in> set (plugin_entries p) \<Longrightarrow>
   ''plugin-'' @ plugin_name p @ ''-'' @ fst e \<in> fst ` set (plugin_pairs ps)"
proof -
  assume p: "p \<in> set ps" and e: "e \<in> set (plugin_entries p)"
  from e have "(''plugin-'' @ plugin_name p @ ''-'' @ fst e, snd e)
      \<in> set (plugin_entry_pairs (plugin_name p) (plugin_entries p))"
    by (force simp: plugin_entry_pairs_def split: prod.splits)
  with p have "(''plugin-'' @ plugin_name p @ ''-'' @ fst e, snd e) \<in> set (plugin_pairs ps)"
    by (auto simp: plugin_pairs_def)
  then show ?thesis by (rule image_eqI[rotated]) simp
qed

lemma last_url_distinct:
  "distinct (map island_id xs) \<Longrightarrow> i \<in> set xs \<Longrightarrow>
   last_url (island_pairs xs) (''island-'' @ island_id i) = island_url i"
proof (induction xs)
  case Nil
  then show ?case by simp
next
  case (Cons x xs)
  show ?case
  proof (cases "i = x")
    case True
    have "island_id x \<notin> island_id ` set xs"
      using Cons.prems(1) by simp
    then have "\<forall>y\<in>set xs. island_id y \<noteq> island_id x"
      by (metis imageI)
    then have "filter (\<lambda>kv. fst kv = ''island-'' @ island_id x) (island_pairs xs) = []"
      by (simp add: island_pairs_def filter_empty_conv)
    then show ?thesis
      using True by (simp add: last_url_def island_pairs_def)
  next
    case False
    with Cons.prems have mem: "i \<in> set xs" and d: "distinct (map island_id xs)"
      and ne: "island_id x \<noteq> island_id i"
      by auto
    have "filter (\<lambda>kv. fst kv = ''island-'' @ island_id i) (island_pairs (x # xs)) =
          filter (\<lambda>kv. fst kv = ''island-'' @ island_id i) (island_pairs xs)"
      using ne by (simp add: island_pairs_def)
    with Cons.IH[OF d mem] show ?thesis
      by (simp add: last_url_def)
  qed
qed

lemma try_signals_other: "k \<noteq> ''signals'' \<Longrightarrow> try_signals resolve E k = E k"
  by (simp add: try_signals_def split: sum.splits)

lemma collectEntrypoints_result:
  assumes "resolve (entrypointBase @ (if dev then ''/main_dev.ts'' else ''/main.ts'')) = Inr mainUrl"
    and "resolve (entrypointBase @ ''/deserializer.ts'') = Inr deserializerUrl"
  shows "collectEntrypoints resolve dev xs ps =
            Inr (try_signals resolve [''main'' \<mapsto> mainUrl, ''deserializer'' \<mapsto> deserializerUrl] ++
                 map_of (rev (island_pairs xs)) ++ map_of (rev (plugin_pairs ps)))"
  by (simp only: collectEntrypoints_def assms sum.case islands_loop_eq plugins_loop_eq)

lemma lookup_layers:
  "(B ++ map_of (rev ip) ++ map_of (rev pp)) k =
     (if k \<in> fst ` set pp then Some (last_url pp k)
      else if k \<in> fst ` set ip then Some (last_url ip k) else B k)"
  by (simp add: map_add_def map_of_rev_last map_of_rev_None)


lemma not_island_main: "''main'' \<notin> fst ` set (island_pairs xs)"
  using island_keys[of "''main''" xs] by auto
lemma not_plugin_main: "''main'' \<notin> fst ` set (plugin_pairs ps)"
  using plugin_keys[of "''main''" ps] by auto
lemma not_island_deserializer: "''deserializer'' \<notin> fst ` set (island_pairs xs)"
  using island_keys[of "''deserializer''" xs] by auto
lemma not_plugin_deserializer: "''deserializer'' \<notin> fst ` set (plugin_pairs ps)"
  using plugin_keys[of "''deserializer''" ps] by auto
lemma island_not_plugin: "''island-'' @ i \<notin> fst ` set (plugin_pairs ps)"
  using plugin_keys[of "''island-'' @ i" ps] by auto

text \<open>
  C8, as the code has it. When \<open>import.meta.resolve\<close> gives the URLs of the main and the
  deserializer modules, \<open>collectEntrypoints\<close> returns a map that holds \<open>main\<close> and
  \<open>deserializer\<close> with these URLs; for each island the key \<open>island-<id>\<close>, mapped to the
  URL of the last island of the list with that identifier (the island's own URL when the
  identifiers are distinct); and for each entry of each plugin the key
  \<open>plugin-<pluginName>-<entryName>\<close>, mapped to the URL of the last entry, in plugin order,
  that has this key: a later plugin overwrites an earlier one.
\<close>

theorem collectEntrypoints_keys:
  assumes "resolve (entrypointBase @ (if dev then ''/main_dev.ts'' else ''/main.ts'')) = Inr mainUrl"
    and "resolve (entrypointBase @ ''/deserializer.ts'') = Inr deserializerUrl"
  shows "\<exists>m. collectEntrypoints resolve dev island_list plugins = Inr m \<and>
     m ''main'' = Some mainUrl \<and> m ''deserializer'' = Some deserializerUrl \<and>
     (\<forall>i \<in> set island_list.
        m (''island-'' @ island_id i) =
          Some (last_url (island_pairs island_list) (''island-'' @ island_id i))) \<and>
     (distinct (map island_id island_list) \<longrightarrow>
        (\<forall>i \<in> set island_list. m (''island-'' @ island_id i) = Some (island_url i))) \<and>
     (\<forall>p \<in> set plugins. \<forall>e \<in> set (plugin_entries p).
        m (''plugin-'' @ plugin_name p @ ''-'' @ fst e) =
          Some (last_url (plugin_pairs plugins) (''plugin-'' @ plugin_name p @ ''-'' @ fst e)))"
proof -
  let ?B = "try_signals resolve [''main'' \<mapsto> mainUrl, ''deserializer'' \<mapsto> deserializerUrl]"
  let ?m = "?B ++ map_of (rev (island_pairs island_list)) ++ map_of (rev (plugin_pairs plugins))"
  have res: "collectEntrypoints resolve dev island_list plugins = Inr ?m"
    by (rule collectEntrypoints_result[OF assms])
  have main: "?m ''main'' = Some mainUrl"
    by (simp only: lookup_layers not_island_main not_plugin_main if_False)
       (simp add: try_signals_other)
  have deser: "?m ''deserializer'' = Some deserializerUrl"
    by (simp only: lookup_layers not_island_deserializer not_plugin_deserializer if_False)
       (simp add: try_signals_other)
  have isl: "?m (''island-'' @ island_id i) =
      Some (last_url (island_pairs island_list) (''island-'' @ island_id i))"
    if "i \<in> set island_list" for i
    using island_key_mem[OF that]
    by (simp only: lookup_layers island_not_plugin if_False if_True)
  have isl_d: "?m (''island-'' @ island_id i) = Some (island_url i)"
    if "distinct (map island_id island_list)" "i \<in> set island_list" for i
    using isl[OF that(2)] last_url_distinct[OF that] by simp
  have plg: "?m (''plugin-'' @ plugin_name p @ ''-'' @ fst e) =
      Some (last_url (plugin_pairs plugins) (''plugin-'' @ plugin_name p @ ''-'' @ fst e))"
    if "p \<in> set plugins" "e \<in> set (plugin_entries p)" for p e
    using plugin_key_mem[OF that]
    by (simp only: lookup_layers if_True)
  show ?thesis
  proof (intro exI[of _ ?m] conjI ballI impI)
    show "collectEntrypoints resolve dev island_list plugins = Inr ?m" by (rule res)
    show "?m ''main'' = Some mainUrl" by (rule main)
    show "?m ''deserializer'' = Some deserializerUrl" by (rule deser)
    show "?m (''island-'' @ island_id i) =
        Some (last_url (island_pairs island_list) (''island-'' @ island_id i))"
      if "i \<in> set island_list" for i
      using that by (rule isl)
    show "?m (''island-'' @ island_id i) = Some (island_url i)"
      if "distinct (map island_id island_list)" "i \<in> set island_list" for i
      using that by (rule isl_d)
    show "?m (''plugin-'' @ plugin_name p @ ''-'' @ fst e) =
        Some (last_url (plugin_pairs plugins) (''plugin-'' @ plugin_name p @ ''-'' @ fst e))"
      if "p \<in> set plugins" "e \<in> set (plugin_entries p)" for p e
      using that by (rule plg)
  qed
qed


lemma example_resolve_main:
  "example_resolve (entrypointBase @ (if True then ''/main_dev.ts'' else ''/main.ts'')) =
     Inr ''file:///fresh/src/runtime/entrypoints/main_dev.ts''"
  by (simp add: example_resolve_def entrypointBase_def startsWith_def)

lemma example_resolve_deserializer:
  "example_resolve (entrypointBase @ ''/deserializer.ts'') =
     Inr ''file:///fresh/src/runtime/entrypoints/deserializer.ts''"
  by (simp add: example_resolve_def entrypointBase_def startsWith_def)

theorem collectEntrypoints_keys_witness:
  "\<exists>m. collectEntrypoints example_resolve True
          [\<lparr>island_id = ''X'', island_url = ''file:///proj/islands/X.tsx''\<rparr>]
          [\<lparr>plugin_name = ''p'', entrypoints = Some [(''foo'', ''file:///p/foo1.ts'')]\<rparr>,
           \<lparr>plugin_name = ''p'', entrypoints = Some [(''foo'', ''file:///p/foo2.ts'')]\<rparr>] = Inr m \<and>
       m ''main'' = Some ''file:///fresh/src/runtime/entrypoints/main_dev.ts'' \<and>
       m ''deserializer'' = Some ''file:///fresh/src/runtime/entrypoints/deserializer.ts'' \<and>
       m ''island-X'' = Some ''file:///proj/islands/X.tsx'' \<and>
       m ''plugin-p-foo'' = Some ''file:///p/foo2.ts''"
proof -
  let ?is = "[\<lparr>island_id = ''X'', island_url = ''file:///proj/islands/X.tsx''\<rparr>]"
  let ?ps = "[\<lparr>plugin_name = ''p'', entrypoints = Some [(''foo'', ''file:///p/foo1.ts'')]\<rparr>,
              \<lparr>plugin_name = ''p'', entrypoints = Some [(''foo'', ''file:///p/foo2.ts'')]\<rparr>]"
  have l: "last_url (plugin_pairs ?ps) ''plugin-p-foo'' = ''file:///p/foo2.ts''"
    by (simp add: last_url_def plugin_pairs_def plugin_entry_pairs_def plugin_entries_def)
  from collectEntrypoints_keys [OF example_resolve_main example_resolve_deserializer,
      of ?is ?ps]
  obtain m where m: "collectEntrypoints example_resolve True ?is ?ps = Inr m"
    "m ''main'' = Some ''file:///fresh/src/runtime/entrypoints/main_dev.ts''"
    "m ''deserializer'' = Some ''file:///fresh/src/runtime/entrypoints/deserializer.ts''"
    "\<forall>i \<in> set ?is. m (''island-'' @ island_id i) = Some (island_url i)"
    "\<forall>p \<in> set ?ps. \<forall>e \<in> set (plugin_entries p).
        m (''plugin-'' @ plugin_name p @ ''-'' @ fst e) =
          Some (last_url (plugin_pairs ?ps) (''plugin-'' @ plugin_name p @ ''-'' @ fst e))"
    by auto
  from m(4) have i: "m ''island-X'' = Some ''file:///proj/islands/X.tsx''" by simp
  from m(5) have p: "m ''plugin-p-foo'' = Some ''file:///p/foo2.ts''"
    by (simp add: plugin_entries_def l)
  from m(1,2,3) i p show ?thesis by blast
qed


text \<open>
  The claim as it is written fails for two islands with the same identifier and different
  URLs: the key holds the URL of the second one, not that of the first.
\<close>

theorem collectEntrypoints_island_counterexample:
  "\<exists>m. collectEntrypoints example_resolve True
          [\<lparr>island_id = ''a'', island_url = ''file:///proj/islands/A.tsx''\<rparr>,
           \<lparr>island_id = ''a'', island_url = ''file:///proj/islands/a.tsx''\<rparr>] [] = Inr m \<and>
       m (''island-'' @ island_id \<lparr>island_id = ''a'', island_url = ''file:///proj/islands/A.tsx''\<rparr>) \<noteq>
         Some (island_url \<lparr>island_id = ''a'', island_url = ''file:///proj/islands/A.tsx''\<rparr>)"
  by (simp add: collectEntrypoints_def example_resolve_def entrypointBase_def startsWith_def
      try_signals_def)

end
